theory Spec2Isabelle
  imports Complex_Main
begin

section \<open>JavaScript numbers\<close>

text \<open>
  The program in \<^verbatim>\<open>src/script.js\<close> computes with JavaScript numbers. They are
  modelled as the real numbers extended by the two infinities and NaN. The
  operations \<open>jadd\<close>, \<open>jmul\<close>, ... are exact on finite values (no rounding, no
  overflow of finite values); a real number of the model stands for the double
  nearest to it. Where rounding decides the result, under \<^verbatim>\<open>Math.floor\<close> and in
  the composition of the canvas matrix, the operations \<open>dadd\<close>, \<open>dmul\<close>, ... round
  every result to the nearest double as IEEE 754 does. The two zeros are not
  told apart: every zero divisor of the program is a length, a square root or a
  canvas or image dimension, that is \<open>+0\<close>, so \<open>x / 0\<close> has the sign of \<open>x\<close>.
\<close>

datatype jsnum = Num real | PosInf | NegInf | NaN

fun jneg :: "jsnum \<Rightarrow> jsnum" where
  "jneg (Num a) = Num (- a)"
| "jneg PosInf = NegInf"
| "jneg NegInf = PosInf"
| "jneg NaN = NaN"

fun jadd :: "jsnum \<Rightarrow> jsnum \<Rightarrow> jsnum" where
  "jadd NaN _ = NaN"
| "jadd _ NaN = NaN"
| "jadd (Num a) (Num b) = Num (a + b)"
| "jadd PosInf NegInf = NaN"
| "jadd NegInf PosInf = NaN"
| "jadd PosInf _ = PosInf"
| "jadd _ PosInf = PosInf"
| "jadd NegInf _ = NegInf"
| "jadd _ NegInf = NegInf"

definition jsub :: "jsnum \<Rightarrow> jsnum \<Rightarrow> jsnum" where
  "jsub a b = jadd a (jneg b)"

fun jmul :: "jsnum \<Rightarrow> jsnum \<Rightarrow> jsnum" where
  "jmul NaN _ = NaN"
| "jmul _ NaN = NaN"
| "jmul (Num a) (Num b) = Num (a * b)"
| "jmul PosInf (Num b) = (if b = 0 then NaN else if 0 < b then PosInf else NegInf)"
| "jmul NegInf (Num b) = (if b = 0 then NaN else if 0 < b then NegInf else PosInf)"
| "jmul (Num a) PosInf = (if a = 0 then NaN else if 0 < a then PosInf else NegInf)"
| "jmul (Num a) NegInf = (if a = 0 then NaN else if 0 < a then NegInf else PosInf)"
| "jmul PosInf PosInf = PosInf"
| "jmul NegInf NegInf = PosInf"
| "jmul PosInf NegInf = NegInf"
| "jmul NegInf PosInf = NegInf"

fun jdiv :: "jsnum \<Rightarrow> jsnum \<Rightarrow> jsnum" where
  "jdiv NaN _ = NaN"
| "jdiv _ NaN = NaN"
| "jdiv (Num a) (Num b) =
     (if b = 0 then (if a = 0 then NaN else if 0 < a then PosInf else NegInf)
      else Num (a / b))"
| "jdiv (Num a) PosInf = Num 0"
| "jdiv (Num a) NegInf = Num 0"
| "jdiv PosInf (Num b) = (if 0 \<le> b then PosInf else NegInf)"
| "jdiv NegInf (Num b) = (if 0 \<le> b then NegInf else PosInf)"
| "jdiv PosInf _ = NaN"
| "jdiv NegInf _ = NaN"

text \<open>The comparison \<^verbatim>\<open>a < b\<close>: false as soon as an operand is NaN.\<close>

fun jlt :: "jsnum \<Rightarrow> jsnum \<Rightarrow> bool" where
  "jlt NaN _ = False"
| "jlt _ NaN = False"
| "jlt (Num a) (Num b) = (a < b)"
| "jlt NegInf NegInf = False"
| "jlt NegInf _ = True"
| "jlt _ NegInf = False"
| "jlt PosInf _ = False"
| "jlt (Num a) PosInf = True"

definition jgt :: "jsnum \<Rightarrow> jsnum \<Rightarrow> bool" where
  "jgt a b = jlt b a"

text \<open>The comparison \<^verbatim>\<open>a <= b\<close>.\<close>

definition jle :: "jsnum \<Rightarrow> jsnum \<Rightarrow> bool" where
  "jle a b = (a \<noteq> NaN \<and> b \<noteq> NaN \<and> (jlt a b \<or> a = b))"

text \<open>\<^verbatim>\<open>Math.min\<close> and \<^verbatim>\<open>Math.max\<close> of two arguments: NaN when either is NaN.\<close>

definition jmin :: "jsnum \<Rightarrow> jsnum \<Rightarrow> jsnum" where
  "jmin a b = (if a = NaN \<or> b = NaN then NaN else if jlt b a then b else a)"

definition jmax :: "jsnum \<Rightarrow> jsnum \<Rightarrow> jsnum" where
  "jmax a b = (if a = NaN \<or> b = NaN then NaN else if jlt a b then b else a)"

fun jfloor :: "jsnum \<Rightarrow> jsnum" where
  "jfloor (Num a) = Num (of_int \<lfloor>a\<rfloor>)"
| "jfloor v = v"

text \<open>\<^verbatim>\<open>Math.round\<close> rounds a half towards \<open>+\<infinity>\<close>.\<close>

fun jround :: "jsnum \<Rightarrow> jsnum" where
  "jround (Num a) = Num (of_int \<lfloor>a + 1 / 2\<rfloor>)"
| "jround v = v"

fun jsqrt :: "jsnum \<Rightarrow> jsnum" where
  "jsqrt (Num a) = (if a < 0 then NaN else Num (sqrt a))"
| "jsqrt PosInf = PosInf"
| "jsqrt NegInf = NaN"
| "jsqrt NaN = NaN"

fun jcos :: "jsnum \<Rightarrow> jsnum" where
  "jcos (Num a) = Num (cos a)"
| "jcos _ = NaN"

fun jsin :: "jsnum \<Rightarrow> jsnum" where
  "jsin (Num a) = Num (sin a)"
| "jsin _ = NaN"

text \<open>\<^verbatim>\<open>Math.atan2(y, x)\<close> on finite arguments, with \<^verbatim>\<open>atan2(0, 0) = 0\<close>.\<close>

definition atan2r :: "real \<Rightarrow> real \<Rightarrow> real" where
  "atan2r y x =
     (if 0 < x then arctan (y / x)
      else if x < 0 then (if 0 \<le> y then arctan (y / x) + pi else arctan (y / x) - pi)
      else if 0 < y then pi / 2
      else if y < 0 then - (pi / 2)
      else 0)"

fun jatan2 :: "jsnum \<Rightarrow> jsnum \<Rightarrow> jsnum" where
  "jatan2 NaN _ = NaN"
| "jatan2 _ NaN = NaN"
| "jatan2 (Num y) (Num x) = Num (atan2r y x)"
| "jatan2 (Num y) PosInf = Num 0"
| "jatan2 (Num y) NegInf = (if 0 \<le> y then Num pi else Num (- pi))"
| "jatan2 PosInf (Num x) = Num (pi / 2)"
| "jatan2 NegInf (Num x) = Num (- (pi / 2))"
| "jatan2 PosInf PosInf = Num (pi / 4)"
| "jatan2 PosInf NegInf = Num (3 * pi / 4)"
| "jatan2 NegInf PosInf = Num (- (pi / 4))"
| "jatan2 NegInf NegInf = Num (- (3 * pi / 4))"

text \<open>\<^verbatim>\<open>isFinite\<close>: neither an infinity nor NaN.\<close>

fun isFinite :: "jsnum \<Rightarrow> bool" where
  "isFinite (Num a) = True"
| "isFinite _ = False"

text \<open>Image and canvas dimensions are unsigned integers in the browser.\<close>

definition ofDim :: "nat \<Rightarrow> jsnum" where
  "ofDim n = Num (real n)"

subsection \<open>Rounding to the nearest double\<close>

text \<open>Rounding to the nearest integer, a tie to the even one.\<close>

definition roundHalfEven :: "real \<Rightarrow> int" where
  "roundHalfEven y =
     (let f = \<lfloor>y\<rfloor>; r = y - of_int f
      in if r < 1 / 2 then f else if 1 / 2 < r then f + 1 else if even f then f else f + 1)"

text \<open>
  The double nearest to a real number (IEEE 754 binary64, round to nearest, ties to
  even): a significand of 53 bits, so for \<open>2 powr e \<le> \<bar>x\<bar> < 2 powr (e + 1)\<close> the
  doubles are the multiples of \<open>2 powr (e - 52)\<close>. The exponent is not bounded:
  neither overflow nor subnormal numbers are modelled.
\<close>

definition toDouble :: "real \<Rightarrow> real" where
  "toDouble x =
     (if x = 0 then 0
      else (let u = 2 powr (of_int \<lfloor>log 2 \<bar>x\<bar>\<rfloor> - 52)
            in of_int (roundHalfEven (x / u)) * u))"

fun jdouble :: "jsnum \<Rightarrow> jsnum" where
  "jdouble (Num a) = Num (toDouble a)"
| "jdouble v = v"

text \<open>The four operations on doubles: the exact result, rounded.\<close>

definition dadd :: "jsnum \<Rightarrow> jsnum \<Rightarrow> jsnum" where
  "dadd a b = jdouble (jadd a b)"

definition dsub :: "jsnum \<Rightarrow> jsnum \<Rightarrow> jsnum" where
  "dsub a b = jdouble (jsub a b)"

definition dmul :: "jsnum \<Rightarrow> jsnum \<Rightarrow> jsnum" where
  "dmul a b = jdouble (jmul a b)"

definition ddiv :: "jsnum \<Rightarrow> jsnum \<Rightarrow> jsnum" where
  "ddiv a b = jdouble (jdiv a b)"

text \<open>A function of the platform's mathematics library, on a JavaScript number.\<close>

fun japply :: "(real \<Rightarrow> real) \<Rightarrow> jsnum \<Rightarrow> jsnum" where
  "japply f (Num a) = Num (f a)"
| "japply f v = NaN"

section \<open>Data of the session\<close>

text \<open>
  A landmark point \<^verbatim>\<open>{x, y}\<close>. The fields are named \<open>px\<close> and \<open>py\<close> so that \<open>x\<close>
  and \<open>y\<close> stay usable as variables.
\<close>

record point =
  px :: jsnum
  py :: jsnum

text \<open>
  What the program reads of a detection: \<^verbatim>\<open>landmarks.getLeftEye()\<close> and
  \<^verbatim>\<open>landmarks.getRightEye()\<close>.
\<close>

record detection =
  leftEye :: "point list"
  rightEye :: "point list"

record image =
  width :: nat
  height :: nat

text \<open>
  An entry of \<^verbatim>\<open>state.images\<close>: \<^verbatim>\<open>{original, detections}\<close>, where \<^verbatim>\<open>detections\<close> is
  undefined when no face was found.
\<close>

record item =
  original :: image
  detections :: "detection option"

section \<open>Landmark geometry\<close>

text \<open>\<^verbatim>\<open>getCentroid\<close> (lines 317-320): a left fold summing the points, then a division
  by the number of points. Nothing is checked: on an empty array it is \<^verbatim>\<open>0 / 0\<close>.\<close>

definition getCentroid :: "point list \<Rightarrow> point" where
  "getCentroid points =
     (let sum = foldl (\<lambda>acc p. \<lparr>px = jadd (px acc) (px p), py = jadd (py acc) (py p)\<rparr>)
                  \<lparr>px = Num 0, py = Num 0\<rparr> points
      in \<lparr>px = jdiv (px sum) (Num (real (length points))),
          py = jdiv (py sum) (Num (real (length points)))\<rparr>)"

text \<open>
  The geometry both \<^verbatim>\<open>renderFrame\<close> (lines 261-284) and \<^verbatim>\<open>autoFitZoom\<close>
  (lines 347-361) derive from a detection, by the same expressions.
\<close>

record geometry =
  eyeDx :: jsnum
  eyeDy :: jsnum
  currentEyesDist :: jsnum
  angle :: jsnum
  eyesCenter :: point

definition eyeGeometry :: "detection \<Rightarrow> geometry" where
  "eyeGeometry d =
     (let leftEyeCenter = getCentroid (leftEye d);
          rightEyeCenter = getCentroid (rightEye d);
          dx = jsub (px rightEyeCenter) (px leftEyeCenter);
          dy = jsub (py rightEyeCenter) (py leftEyeCenter)
      in \<lparr>eyeDx = dx, eyeDy = dy,
          currentEyesDist = jsqrt (jadd (jmul dx dx) (jmul dy dy)),
          angle = jatan2 dy dx,
          eyesCenter = \<lparr>px = jdiv (jadd (px leftEyeCenter) (px rightEyeCenter)) (Num 2),
                         py = jdiv (jadd (py leftEyeCenter) (py rightEyeCenter)) (Num 2)\<rparr>\<rparr>)"

section \<open>The canvas transform\<close>

text \<open>
  The current transformation matrix of the 2D context, with the fields of a
  \<^verbatim>\<open>DOMMatrix\<close>: a source point \<open>(x, y)\<close> is drawn at
  \<open>(a*x + c*y + e, b*x + d*y + f)\<close>. \<^verbatim>\<open>ctx.translate\<close>, \<^verbatim>\<open>ctx.scale\<close> and
  \<^verbatim>\<open>ctx.rotate\<close> belong to the browser, not to the repository; they follow the HTML
  standard: each multiplies the current matrix on the right by its own matrix, and
  each returns at once, changing nothing, when an argument is infinite or NaN.
\<close>

record matrix =
  ma :: jsnum
  mb :: jsnum
  mc :: jsnum
  md :: jsnum
  me :: jsnum
  mf :: jsnum

definition identityMatrix :: matrix where
  "identityMatrix = \<lparr>ma = Num 1, mb = Num 0, mc = Num 0, md = Num 1, me = Num 0, mf = Num 0\<rparr>"

definition ctxTranslate :: "jsnum \<Rightarrow> jsnum \<Rightarrow> matrix \<Rightarrow> matrix" where
  "ctxTranslate tx ty m =
     (if isFinite tx \<and> isFinite ty
      then m\<lparr>me := jadd (jadd (jmul (ma m) tx) (jmul (mc m) ty)) (me m),
             mf := jadd (jadd (jmul (mb m) tx) (jmul (md m) ty)) (mf m)\<rparr>
      else m)"

definition ctxScale :: "jsnum \<Rightarrow> jsnum \<Rightarrow> matrix \<Rightarrow> matrix" where
  "ctxScale sx sy m =
     (if isFinite sx \<and> isFinite sy
      then m\<lparr>ma := jmul (ma m) sx, mb := jmul (mb m) sx,
             mc := jmul (mc m) sy, md := jmul (md m) sy\<rparr>
      else m)"

definition ctxRotate :: "jsnum \<Rightarrow> matrix \<Rightarrow> matrix" where
  "ctxRotate t m =
     (if isFinite t
      then m\<lparr>ma := jadd (jmul (ma m) (jcos t)) (jmul (mc m) (jsin t)),
             mb := jadd (jmul (mb m) (jcos t)) (jmul (md m) (jsin t)),
             mc := jsub (jmul (mc m) (jcos t)) (jmul (ma m) (jsin t)),
             md := jsub (jmul (md m) (jcos t)) (jmul (mb m) (jsin t))\<rparr>
      else m)"

definition transformPoint :: "matrix \<Rightarrow> point \<Rightarrow> point" where
  "transformPoint m p =
     \<lparr>px = jadd (jadd (jmul (ma m) (px p)) (jmul (mc m) (py p))) (me m),
      py = jadd (jadd (jmul (mb m) (px p)) (jmul (md m) (py p))) (mf m)\<rparr>"


subsection \<open>The canvas transform in doubles\<close>

text \<open>
  The same operations with every product and sum rounded to the nearest double, as
  the canvas composes its matrix of doubles. \<^verbatim>\<open>ctx.rotate\<close> takes the cosine and the
  sine from the platform, which JavaScript only requires to approximate the
  mathematical functions: they are the parameters \<open>cosD\<close> and \<open>sinD\<close>.
\<close>

definition ctxTranslateD :: "jsnum \<Rightarrow> jsnum \<Rightarrow> matrix \<Rightarrow> matrix" where
  "ctxTranslateD tx ty m =
     (if isFinite tx \<and> isFinite ty
      then m\<lparr>me := dadd (dadd (dmul (ma m) tx) (dmul (mc m) ty)) (me m),
             mf := dadd (dadd (dmul (mb m) tx) (dmul (md m) ty)) (mf m)\<rparr>
      else m)"

definition ctxScaleD :: "jsnum \<Rightarrow> jsnum \<Rightarrow> matrix \<Rightarrow> matrix" where
  "ctxScaleD sx sy m =
     (if isFinite sx \<and> isFinite sy
      then m\<lparr>ma := dmul (ma m) sx, mb := dmul (mb m) sx,
             mc := dmul (mc m) sy, md := dmul (md m) sy\<rparr>
      else m)"

definition ctxRotateD :: "(real \<Rightarrow> real) \<Rightarrow> (real \<Rightarrow> real) \<Rightarrow> jsnum \<Rightarrow> matrix \<Rightarrow> matrix" where
  "ctxRotateD cosD sinD t m =
     (if isFinite t
      then m\<lparr>ma := dadd (dmul (ma m) (japply cosD t)) (dmul (mc m) (japply sinD t)),
             mb := dadd (dmul (mb m) (japply cosD t)) (dmul (md m) (japply sinD t)),
             mc := dsub (dmul (mc m) (japply cosD t)) (dmul (ma m) (japply sinD t)),
             md := dsub (dmul (md m) (japply cosD t)) (dmul (mb m) (japply sinD t))\<rparr>
      else m)"

text \<open>The image of a point: the products with the linear part of the matrix, summed,
  and then the translation added.\<close>

definition linearPartD :: "matrix \<Rightarrow> point \<Rightarrow> point" where
  "linearPartD m p =
     \<lparr>px = dadd (dmul (ma m) (px p)) (dmul (mc m) (py p)),
      py = dadd (dmul (mb m) (px p)) (dmul (md m) (py p))\<rparr>"

definition transformPointD :: "matrix \<Rightarrow> point \<Rightarrow> point" where
  "transformPointD m p =
     \<lparr>px = dadd (px (linearPartD m p)) (me m),
      py = dadd (py (linearPartD m p)) (mf m)\<rparr>"

text \<open>A point of the model as the point of doubles the program holds.\<close>

definition pointD :: "point \<Rightarrow> point" where
  "pointD p = \<lparr>px = jdouble (px p), py = jdouble (py p)\<rparr>"

section \<open>The session state\<close>

text \<open>
  The \<^verbatim>\<open>drawImage\<close> call \<^verbatim>\<open>renderFrame\<close> makes on the cleared canvas, with its
  arguments as passed: the image at the origin under the aligning matrix (line 304),
  or the image under the identity matrix into the rectangle \<open>(x, y, width, height)\<close>
  (line 313).
\<close>

datatype drawing =
  Aligned image matrix
| Letterbox image jsnum jsnum jsnum jsnum

text \<open>
  The fields of \<^verbatim>\<open>state\<close> the modelled functions read or write, the canvas size
  (\<^verbatim>\<open>state.canvas.width\<close>, \<^verbatim>\<open>state.canvas.height\<close>), and what they change in the
  page: the loading overlay, the zoom slider and the canvas.
\<close>

record state =
  images :: "item list"
  isPlaying :: bool
  currentFrame :: nat
  fps :: jsnum
  zoom :: jsnum
  alignEyes :: bool
  canvasWidth :: nat
  canvasHeight :: nat
  loadingText :: string
  loadingHidden :: bool
  progressHidden :: bool
  zoomRangeValue :: jsnum
  canvasContent :: "drawing option"

text \<open>\<^verbatim>\<open>showLoading(text)\<close> with the default \<^verbatim>\<open>progress = -1\<close> (lines 445-455) and
  \<^verbatim>\<open>hideLoading\<close> (lines 457-459).\<close>

definition showLoading :: "string \<Rightarrow> state \<Rightarrow> state" where
  "showLoading t s = s\<lparr>loadingText := t, loadingHidden := False, progressHidden := True\<rparr>"

definition hideLoading :: "state \<Rightarrow> state" where
  "hideLoading s = s\<lparr>loadingHidden := True\<rparr>"

section \<open>Rendering a frame\<close>

text \<open>Line 285: \<^verbatim>\<open>scale = desiredEyesDist / currentEyesDist\<close>, with no check of the
  divisor.\<close>

definition alignScale :: "nat \<Rightarrow> jsnum \<Rightarrow> detection \<Rightarrow> jsnum" where
  "alignScale cw z d =
     (let desiredEyesDist = jmul (ofDim cw) z
      in jdiv desiredEyesDist (currentEyesDist (eyeGeometry d)))"

text \<open>Lines 287-302: the matrix under which the image is drawn, starting from the
  identity (\<^verbatim>\<open>ctx.save\<close> and \<^verbatim>\<open>ctx.restore\<close> bracket every change of it).\<close>

definition alignTransform :: "nat \<Rightarrow> nat \<Rightarrow> jsnum \<Rightarrow> detection \<Rightarrow> matrix" where
  "alignTransform cw ch z d =
     (let g = eyeGeometry d;
          scale = alignScale cw z d;
          targetX = jmul (ofDim cw) (Num 0.5);
          targetY = jmul (ofDim ch) (Num 0.4);
          m1 = ctxTranslate targetX targetY identityMatrix;
          m2 = ctxScale scale scale m1;
          m3 = ctxRotate (jneg (angle g)) m2
      in ctxTranslate (jneg (px (eyesCenter g))) (jneg (py (eyesCenter g))) m3)"

text \<open>
  Lines 283-302 in doubles: the geometry, the zoom and the literal \<^verbatim>\<open>0.4\<close> enter as
  the doubles nearest to them (\<^verbatim>\<open>0.5\<close> and the canvas size are doubles), and every
  operation of the scale, the targets and the matrix is rounded.
\<close>

definition alignTransformD ::
  "(real \<Rightarrow> real) \<Rightarrow> (real \<Rightarrow> real) \<Rightarrow> nat \<Rightarrow> nat \<Rightarrow> jsnum \<Rightarrow> detection \<Rightarrow> matrix" where
  "alignTransformD cosD sinD cw ch z d =
     (let g = eyeGeometry d;
          desiredEyesDist = dmul (ofDim cw) (jdouble z);
          scale = ddiv desiredEyesDist (jdouble (currentEyesDist g));
          targetX = dmul (ofDim cw) (Num 0.5);
          targetY = dmul (ofDim ch) (Num (toDouble 0.4));
          m1 = ctxTranslateD targetX targetY identityMatrix;
          m2 = ctxScaleD scale scale m1;
          m3 = ctxRotateD cosD sinD (jneg (jdouble (angle g))) m2
      in ctxTranslateD (jneg (jdouble (px (eyesCenter g)))) (jneg (jdouble (py (eyesCenter g)))) m3)"

text \<open>Lines 309-313: the centred placement of an image without rotation.\<close>

definition letterbox :: "nat \<Rightarrow> nat \<Rightarrow> image \<Rightarrow> drawing" where
  "letterbox cw ch img =
     (let scale = jmin (jdiv (ofDim cw) (ofDim (width img)))
                       (jdiv (ofDim ch) (ofDim (height img)));
          x = jdiv (jsub (ofDim cw) (jmul (ofDim (width img)) scale)) (Num 2);
          y = jdiv (jsub (ofDim ch) (jmul (ofDim (height img)) scale)) (Num 2)
      in Letterbox img x y (jmul (ofDim (width img)) scale) (jmul (ofDim (height img)) scale))"

text \<open>\<^verbatim>\<open>renderFrame\<close> (lines 249-315). An index past the end of \<^verbatim>\<open>state.images\<close>
  reads \<^verbatim>\<open>undefined\<close> and the function returns.\<close>

definition renderFrame :: "nat \<Rightarrow> state \<Rightarrow> state" where
  "renderFrame index s =
     (if index < length (images s)
      then (let it = images s ! index in
            case detections it of
              Some d \<Rightarrow>
                if alignEyes s
                then s\<lparr>canvasContent := Some (Aligned (original it)
                         (alignTransform (canvasWidth s) (canvasHeight s) (zoom s) d))\<rparr>
                else s\<lparr>canvasContent :=
                         Some (letterbox (canvasWidth s) (canvasHeight s) (original it))\<rparr>
            | None \<Rightarrow>
                s\<lparr>canvasContent :=
                    Some (letterbox (canvasWidth s) (canvasHeight s) (original it))\<rparr>)
      else s)"

section \<open>Auto-fit\<close>

text \<open>The body of \<^verbatim>\<open>corners.forEach\<close> (lines 388-411): one corner lowers
  \<^verbatim>\<open>maxScaleForThisImage\<close> by its bound on the x axis, then by its bound on the y
  axis.\<close>

definition cornerStep ::
  "jsnum \<Rightarrow> jsnum \<Rightarrow> jsnum \<Rightarrow> jsnum \<Rightarrow> point \<Rightarrow> jsnum \<Rightarrow> jsnum \<Rightarrow> jsnum \<Rightarrow> point \<Rightarrow> jsnum" where
  "cornerStep cw ch targetX targetY ec cs sn maxScale p =
     (let relX = jsub (px p) (px ec);
          relY = jsub (py p) (py ec);
          rotX = jsub (jmul relX cs) (jmul relY sn);
          rotY = jadd (jmul relX sn) (jmul relY cs);
          m1 = (if jgt rotX (Num 0) then jmin maxScale (jdiv (jsub cw targetX) rotX)
                else if jlt rotX (Num 0) then jmin maxScale (jdiv (jneg targetX) rotX)
                else maxScale)
      in (if jgt rotY (Num 0) then jmin m1 (jdiv (jsub ch targetY) rotY)
          else if jlt rotY (Num 0) then jmin m1 (jdiv (jneg targetY) rotY)
          else m1))"

text \<open>Lines 376-381: the four corners of the image.\<close>

definition corners :: "image \<Rightarrow> point list" where
  "corners img =
     [\<lparr>px = Num 0, py = Num 0\<rparr>,
      \<lparr>px = ofDim (width img), py = Num 0\<rparr>,
      \<lparr>px = ofDim (width img), py = ofDim (height img)\<rparr>,
      \<lparr>px = Num 0, py = ofDim (height img)\<rparr>]"

text \<open>Lines 376-411: \<^verbatim>\<open>maxScaleForThisImage\<close> starts at \<^verbatim>\<open>Infinity\<close> and is lowered
  by each corner in turn.\<close>

definition maxScaleForThisImage :: "nat \<Rightarrow> nat \<Rightarrow> image \<Rightarrow> detection \<Rightarrow> jsnum" where
  "maxScaleForThisImage cw ch img d =
     (let g = eyeGeometry d;
          targetX = jmul (ofDim cw) (Num 0.5);
          targetY = jmul (ofDim ch) (Num 0.4);
          cs = jcos (jneg (angle g));
          sn = jsin (jneg (angle g))
      in foldl (cornerStep (ofDim cw) (ofDim ch) targetX targetY (eyesCenter g) cs sn)
           PosInf (corners img))"

text \<open>Line 417: the safe zoom of one image.\<close>

definition safeZoom :: "nat \<Rightarrow> nat \<Rightarrow> image \<Rightarrow> detection \<Rightarrow> jsnum" where
  "safeZoom cw ch img d =
     jdiv (jmul (maxScaleForThisImage cw ch img d) (currentEyesDist (eyeGeometry d)))
          (ofDim cw)"

text \<open>The body of \<^verbatim>\<open>state.images.forEach\<close> (lines 344-419): an item without
  detections is skipped, any other lowers \<^verbatim>\<open>minSafeZoom\<close>.\<close>

definition fitStep :: "nat \<Rightarrow> nat \<Rightarrow> jsnum \<Rightarrow> item \<Rightarrow> jsnum" where
  "fitStep cw ch minSafe it =
     (case detections it of
        None \<Rightarrow> minSafe
      | Some d \<Rightarrow> jmin minSafe (safeZoom cw ch (original it) d))"

text \<open>Lines 337-419: \<^verbatim>\<open>minSafeZoom\<close> after the loop over all images, from its
  initial value \<^verbatim>\<open>1.0\<close>.\<close>

definition minSafeZoom :: "state \<Rightarrow> jsnum" where
  "minSafeZoom s = foldl (fitStep (canvasWidth s) (canvasHeight s)) (Num 1.0) (images s)"

text \<open>
  Lines 421-425: the margin, the floor to two decimals and the clamp.
  \<^verbatim>\<open>Math.floor\<close> is not continuous, so the two products under it are the products
  of doubles: \<^verbatim>\<open>minSafeZoom\<close> enters as the double nearest to the model's value,
  \<^verbatim>\<open>0.95\<close> is the double the literal denotes, and each product is rounded.
\<close>

definition finalZoom :: "jsnum \<Rightarrow> jsnum" where
  "finalZoom minSafe =
     jdiv (jfloor (dmul (dmul (jdouble minSafe) (Num (toDouble 0.95))) (Num 100))) (Num 100)"

definition clampedZoom :: "jsnum \<Rightarrow> jsnum" where
  "clampedZoom minSafe = jmax (Num 0.1) (jmin (Num 1.0) (finalZoom minSafe))"

text \<open>The number \<^verbatim>\<open>Math.floor\<close> receives at line 422 for a finite \<^verbatim>\<open>minSafeZoom\<close>:
  \<^verbatim>\<open>minSafeZoom * 0.95 * 100\<close>, evaluated from the left in doubles.\<close>

definition marginScaled :: "real \<Rightarrow> real" where
  "marginScaled z = toDouble (toDouble (toDouble z * toDouble 0.95) * 100)"

text \<open>\<^verbatim>\<open>autoFitZoom\<close> (lines 322-434).\<close>

definition autoFitZoom :: "state \<Rightarrow> state" where
  "autoFitZoom s =
     (if length (images s) = 0 then s
      else (let s1 = showLoading ''Calculating optimal zoom...'' s;
                c = clampedZoom (minSafeZoom s1);
                s2 = s1\<lparr>zoom := c, zoomRangeValue := jround (jmul c (Num 100))\<rparr>;
                s3 = hideLoading s2
            in if \<not> isPlaying s3 then renderFrame (currentFrame s3) s3 else s3))"

section \<open>The specification's reading of the solver\<close>

text \<open>
  The specification gives the last step of the solver in three parts, in this order:
  the margin factor, the floor to two decimal places, the clamp to \<open>[0.1, 1.0]\<close>.
\<close>

definition spec_margin :: "real \<Rightarrow> real" where
  "spec_margin z = z * 0.95"

definition spec_floor2 :: "real \<Rightarrow> real" where
  "spec_floor2 x = of_int \<lfloor>x * 100\<rfloor> / 100"

definition spec_clamp :: "real \<Rightarrow> real" where
  "spec_clamp x = max 0.1 (min 1.0 x)"

text \<open>
  The bounds of one image as the specification words them, over the reals: a corner
  is rotated by \<open>-angle\<close> about the eyes-center; on each axis a positive rotated
  coordinate gives the bound \<open>(extent - target) / rot\<close>, a negative one
  \<open>-target / rot\<close>, and zero gives none. The targets are half the canvas width and
  0.4 of the canvas height.
\<close>

definition spec_rotate :: "real \<Rightarrow> real \<Rightarrow> real \<Rightarrow> real \<times> real \<Rightarrow> real \<times> real" where
  "spec_rotate cx cy a p =
     (let relX = fst p - cx; relY = snd p - cy
      in (relX * cos (- a) - relY * sin (- a), relX * sin (- a) + relY * cos (- a)))"

definition spec_axisBound :: "real \<Rightarrow> real \<Rightarrow> real \<Rightarrow> real list" where
  "spec_axisBound extent target rot =
     (if rot > 0 then [(extent - target) / rot]
      else if rot < 0 then [- target / rot]
      else [])"

definition spec_cornerBounds ::
  "real \<Rightarrow> real \<Rightarrow> real \<Rightarrow> real \<Rightarrow> real \<Rightarrow> real \<times> real \<Rightarrow> real list" where
  "spec_cornerBounds cw ch cx cy a p =
     spec_axisBound cw (cw * 0.5) (fst (spec_rotate cx cy a p)) @
     spec_axisBound ch (ch * 0.4) (snd (spec_rotate cx cy a p))"

definition spec_corners :: "real \<Rightarrow> real \<Rightarrow> (real \<times> real) list" where
  "spec_corners w h = [(0, 0), (w, 0), (w, h), (0, h)]"

definition spec_bounds ::
  "real \<Rightarrow> real \<Rightarrow> real \<Rightarrow> real \<Rightarrow> real \<Rightarrow> real \<Rightarrow> real \<Rightarrow> real list" where
  "spec_bounds cw ch cx cy a w h =
     concat (map (spec_cornerBounds cw ch cx cy a) (spec_corners w h))"

text \<open>The least of a list of bounds; with no bound at all the scale is unbounded.\<close>

definition spec_least :: "real list \<Rightarrow> jsnum" where
  "spec_least bs = (if bs = [] then PosInf else Num (Min (set bs)))"

text \<open>The minimum of a list of JavaScript numbers, as \<^verbatim>\<open>Math.min\<close> of all of them:
  NaN when one of them is NaN, otherwise the least in the order
  \<open>-\<infinity> < finite < +\<infinity>\<close>.\<close>

definition spec_minimum :: "jsnum list \<Rightarrow> jsnum" where
  "spec_minimum vs =
     (if NaN \<in> set vs then NaN
      else if NegInf \<in> set vs then NegInf
      else spec_least (concat (map (\<lambda>v. case v of Num r \<Rightarrow> [r] | _ \<Rightarrow> []) vs)))"

text \<open>The safe zooms of the images that have detections, in order.\<close>

definition safeZooms :: "state \<Rightarrow> jsnum list" where
  "safeZooms s =
     map (\<lambda>it. safeZoom (canvasWidth s) (canvasHeight s) (original it) (the (detections it)))
       (filter (\<lambda>it. detections it \<noteq> None) (images s))"

text \<open>A finite landmark point, and the arithmetic centroid of finite points.\<close>

definition mkPoint :: "real \<times> real \<Rightarrow> point" where
  "mkPoint p = \<lparr>px = Num (fst p), py = Num (snd p)\<rparr>"

definition spec_centroid :: "(real \<times> real) list \<Rightarrow> real \<times> real" where
  "spec_centroid ps =
     (sum_list (map fst ps) / real (length ps), sum_list (map snd ps) / real (length ps))"

section \<open>Example sessions\<close>

text \<open>A paused session as \<^verbatim>\<open>state\<close> is initialised (zoom 0.25, 10 fps, eyes aligned),
  with the given images and canvas size.\<close>

definition session :: "item list \<Rightarrow> nat \<Rightarrow> nat \<Rightarrow> state" where
  "session its cw ch =
     \<lparr>images = its, isPlaying = False, currentFrame = 0, fps = Num 10, zoom = Num 0.25,
      alignEyes = True, canvasWidth = cw, canvasHeight = ch, loadingText = [],
      loadingHidden = True, progressHidden = True, zoomRangeValue = Num 25,
      canvasContent = None\<rparr>"

definition frame :: "image \<Rightarrow> detection \<Rightarrow> item" where
  "frame img d = \<lparr>original = img, detections = Some d\<rparr>"

definition frameNoFace :: "image \<Rightarrow> item" where
  "frameNoFace img = \<lparr>original = img, detections = None\<rparr>"

definition imageSquare :: image where
  "imageSquare = \<lparr>width = 1000, height = 1000\<rparr>"

definition imageSmall :: image where
  "imageSmall = \<lparr>width = 100, height = 100\<rparr>"

text \<open>Eyes at \<open>(400, 500)\<close> and \<open>(600, 500)\<close>: distance 200, angle 0.\<close>

definition eyesWide :: detection where
  "eyesWide = \<lparr>leftEye = [\<lparr>px = Num 400, py = Num 500\<rparr>],
               rightEye = [\<lparr>px = Num 600, py = Num 500\<rparr>]\<rparr>"

text \<open>The same eyes-center and angle, half the distance.\<close>

definition eyesNarrow :: detection where
  "eyesNarrow = \<lparr>leftEye = [\<lparr>px = Num 450, py = Num 500\<rparr>],
                 rightEye = [\<lparr>px = Num 550, py = Num 500\<rparr>]\<rparr>"

definition eyesShifted :: detection where
  "eyesShifted = \<lparr>leftEye = [\<lparr>px = Num 300, py = Num 500\<rparr>],
                  rightEye = [\<lparr>px = Num 500, py = Num 500\<rparr>]\<rparr>"

text \<open>Both eyes detected at the same point: distance 0.\<close>

definition eyesCoincident :: detection where
  "eyesCoincident = \<lparr>leftEye = [\<lparr>px = Num 500, py = Num 500\<rparr>],
                     rightEye = [\<lparr>px = Num 500, py = Num 500\<rparr>]\<rparr>"

text \<open>An empty point cluster for the left eye.\<close>

definition eyesMissing :: detection where
  "eyesMissing = \<lparr>leftEye = [], rightEye = [\<lparr>px = Num 600, py = Num 500\<rparr>]\<rparr>"

text \<open>Landmarks beyond the left and right edges of a 100 by 100 image.\<close>

definition eyesOutside :: detection where
  "eyesOutside = \<lparr>leftEye = [\<lparr>px = Num (- 100), py = Num 40\<rparr>],
                  rightEye = [\<lparr>px = Num 200, py = Num 40\<rparr>]\<rparr>"

text \<open>Level eyes whose center is the target of a 1900 by 1000 canvas: every bound
  of the image is 1 and the safe zoom is \<open>400 / 1900\<close>.\<close>

definition imageNineteen :: image where
  "imageNineteen = \<lparr>width = 1900, height = 1000\<rparr>"

definition eyesNineteen :: detection where
  "eyesNineteen = \<lparr>leftEye = [\<lparr>px = Num 750, py = Num 400\<rparr>],
                   rightEye = [\<lparr>px = Num 1150, py = Num 400\<rparr>]\<rparr>"

definition sessionNineteen :: state where
  "sessionNineteen = session [frame imageNineteen eyesNineteen] 1900 1000"

text \<open>Level eyes on a canvas 601 high, whose target height \<^verbatim>\<open>601 * 0.4\<close> is not an
  integer.\<close>

definition eyesLevel :: detection where
  "eyesLevel = \<lparr>leftEye = [\<lparr>px = Num 450, py = Num 211\<rparr>],
                rightEye = [\<lparr>px = Num 550, py = Num 211\<rparr>]\<rparr>"

text \<open>A platform whose cosine and sine are correctly rounded. At the angle 0 every
  platform returns what these return: 1 and 0.\<close>

definition cosRounded :: "real \<Rightarrow> real" where
  "cosRounded t = toDouble (cos t)"

definition sinRounded :: "real \<Rightarrow> real" where
  "sinRounded t = toDouble (sin t)"

definition sessionWide :: state where
  "sessionWide = session [frame imageSquare eyesWide] 1000 1000"

definition sessionScenarioA :: state where
  "sessionScenarioA =
     session [frame imageSquare eyesWide, frame imageSquare eyesShifted] 1000 1000"

definition sessionNoFace :: state where
  "sessionNoFace = session [frameNoFace imageSquare] 1000 1000"

definition sessionNoFaces :: state where
  "sessionNoFaces = session [frameNoFace imageSquare, frameNoFace imageSmall] 1000 1000"

definition sessionCoincident :: state where
  "sessionCoincident = session [frame imageSquare eyesCoincident] 1000 1000"

definition sessionMixed :: state where
  "sessionMixed =
     session [frame imageSquare eyesWide, frame imageSquare eyesCoincident] 1000 1000"

definition sessionMissing :: state where
  "sessionMissing = session [frame imageSquare eyesMissing] 1000 1000"

definition sessionOutside :: state where
  "sessionOutside = session [frame imageSmall eyesOutside] 100 100"

section \<open>Facts about JavaScript numbers\<close>

lemma jmin_Num: "jmin (Num a) (Num b) = Num (min a b)"
  by (simp add: jmin_def min_def)

lemma jmax_Num: "jmax (Num a) (Num b) = Num (max a b)"
  by (simp add: jmax_def max_def)

lemma jadd_NaN_right: "jadd a NaN = NaN"
  by (cases a) simp_all

lemma jmul_NaN_right: "jmul a NaN = NaN"
  by (cases a) simp_all

lemma jdiv_NaN_right: "jdiv a NaN = NaN"
  by (cases a) simp_all

lemma jsub_NaN: "jsub a NaN = NaN" "jsub NaN a = NaN"
  by (simp_all add: jsub_def jadd_NaN_right)

lemma jsub_Num_D:
  "jsub a b = Num x \<Longrightarrow> \<exists>a' b'. a = Num a' \<and> b = Num b' \<and> x = a' - b'"
  by (cases a; cases b) (auto simp: jsub_def)

lemma jnorm_Num_D:
  "jsqrt (jadd (jmul a a) (jmul b b)) = Num e \<Longrightarrow> \<exists>a' b'. a = Num a' \<and> b = Num b'"
  by (cases a; cases b) (auto split: if_splits)

lemma point_eta: "(p::point) = \<lparr>px = px p, py = py p\<rparr>"
  by simp

lemma mem_set_not_Nil: "x \<in> set xs \<Longrightarrow> xs \<noteq> []"
  by auto

lemma sqrt_square_0: "sqrt (a * a) = \<bar>a\<bar>"
  by (simp add: real_sqrt_mult_self)

section \<open>Facts about rounding\<close>

text \<open>
  Rounding to the nearest double is odd and idempotent, keeps the sign, and moves a
  number by at most \<open>\<bar>x\<bar> / 2 ^ 53\<close>; within one binade it is the rounding of the
  significand, which evaluates it on a given number.
\<close>

lemma roundHalfEven_of_int: "roundHalfEven (of_int n) = n"
  by (simp add: roundHalfEven_def)

lemma roundHalfEven_error: "\<bar>of_int (roundHalfEven y) - y\<bar> \<le> 1 / 2"
proof -
  have "of_int \<lfloor>y\<rfloor> \<le> y" "y < of_int \<lfloor>y\<rfloor> + 1" by linarith+
  then show ?thesis by (auto simp: roundHalfEven_def Let_def)
qed

lemma roundHalfEven_ge: "of_int n \<le> y \<Longrightarrow> n \<le> roundHalfEven y"
proof -
  assume "of_int n \<le> y"
  then have "n \<le> \<lfloor>y\<rfloor>" by (simp add: le_floor_iff)
  then show ?thesis by (auto simp: roundHalfEven_def Let_def)
qed

lemma roundHalfEven_le: "y \<le> of_int n \<Longrightarrow> roundHalfEven y \<le> n"
proof -
  assume a: "y \<le> of_int n"
  show ?thesis
  proof (cases "y = of_int \<lfloor>y\<rfloor>")
    case True
    then have "roundHalfEven y = \<lfloor>y\<rfloor>"
      using roundHalfEven_of_int [of "\<lfloor>y\<rfloor>"] by simp
    moreover have "\<lfloor>y\<rfloor> \<le> n" using a by (simp add: floor_le_iff)
    ultimately show ?thesis by simp
  next
    case False
    then have "of_int \<lfloor>y\<rfloor> < y" by linarith
    with a have "of_int \<lfloor>y\<rfloor> < (of_int n :: real)" by linarith
    then have "\<lfloor>y\<rfloor> < n" by simp
    then show ?thesis by (auto simp: roundHalfEven_def Let_def)
  qed
qed

lemma roundHalfEven_minus: "roundHalfEven (- y) = - roundHalfEven y"
proof (cases "y = of_int \<lfloor>y\<rfloor>")
  case True
  then obtain n :: int where "y = of_int n" ..
  then show ?thesis
    using roundHalfEven_of_int [of n] roundHalfEven_of_int [of "- n"] by simp
next
  case False
  then have lt: "of_int \<lfloor>y\<rfloor> < y" "y < of_int \<lfloor>y\<rfloor> + 1" by linarith+
  have fl: "\<lfloor>- y\<rfloor> = - \<lfloor>y\<rfloor> - 1"
  proof (rule floor_unique)
    show "of_int (- \<lfloor>y\<rfloor> - 1) \<le> - y" by (simp; linarith)
    show "- y < of_int (- \<lfloor>y\<rfloor> - 1) + 1" using lt(1) by (simp; linarith)
  qed
  show ?thesis
    unfolding roundHalfEven_def Let_def fl using lt by auto
qed

lemma binade_bounds:
  assumes "x \<noteq> 0"
  shows "2 powr of_int \<lfloor>log 2 \<bar>x\<bar>\<rfloor> \<le> \<bar>x\<bar>" and "\<bar>x\<bar> < 2 powr (of_int \<lfloor>log 2 \<bar>x\<bar>\<rfloor> + 1)"
proof -
  have pos: "0 < \<bar>x\<bar>" using assms by simp
  have "of_int \<lfloor>log 2 \<bar>x\<bar>\<rfloor> \<le> log 2 \<bar>x\<bar>" by (rule of_int_floor_le)
  then show "2 powr of_int \<lfloor>log 2 \<bar>x\<bar>\<rfloor> \<le> \<bar>x\<bar>"
    using pos le_log_iff [of 2 "\<bar>x\<bar>" "of_int \<lfloor>log 2 \<bar>x\<bar>\<rfloor>"] by linarith
  have "log 2 \<bar>x\<bar> < of_int \<lfloor>log 2 \<bar>x\<bar>\<rfloor> + 1" by linarith
  then show "\<bar>x\<bar> < 2 powr (of_int \<lfloor>log 2 \<bar>x\<bar>\<rfloor> + 1)"
    using pos log_less_iff [of 2 "\<bar>x\<bar>" "of_int \<lfloor>log 2 \<bar>x\<bar>\<rfloor> + 1"] by linarith
qed

lemma binade_unique:
  assumes "2 powr of_int k \<le> \<bar>x\<bar>" and "\<bar>x\<bar> < 2 powr (of_int k + 1)"
  shows "\<lfloor>log 2 \<bar>x\<bar>\<rfloor> = k"
proof -
  have pos: "0 < \<bar>x\<bar>" using assms(1) by (smt (verit) powr_gt_zero)
  show ?thesis
  proof (rule floor_unique)
    show "of_int k \<le> log 2 \<bar>x\<bar>" using assms(1) pos by (simp add: le_log_iff)
    show "log 2 \<bar>x\<bar> < of_int k + 1" using assms(2) pos by (simp add: log_less_iff)
  qed
qed

lemma toDouble_zero: "toDouble 0 = 0"
  by (simp add: toDouble_def)

lemma toDouble_minus: "toDouble (- x) = - toDouble x"
  by (simp add: toDouble_def Let_def roundHalfEven_minus)

lemma toDouble_error: "\<bar>toDouble x - x\<bar> \<le> \<bar>x\<bar> / 2 ^ 53"
proof (cases "x = 0")
  case True
  then show ?thesis by (simp add: toDouble_def)
next
  case False
  define e where "e = \<lfloor>log 2 \<bar>x\<bar>\<rfloor>"
  define u :: real where "u = 2 powr (of_int e - 52)"
  have u: "0 < u" by (simp add: u_def)
  have td: "toDouble x = of_int (roundHalfEven (x / u)) * u"
    using False by (simp add: toDouble_def Let_def u_def e_def)
  have "\<bar>of_int (roundHalfEven (x / u)) - x / u\<bar> \<le> 1 / 2" by (rule roundHalfEven_error)
  then have "\<bar>of_int (roundHalfEven (x / u)) - x / u\<bar> * u \<le> 1 / 2 * u"
    using u by (simp add: mult_right_mono)
  moreover have "\<bar>of_int (roundHalfEven (x / u)) - x / u\<bar> * u = \<bar>toDouble x - x\<bar>"
  proof -
    have "(of_int (roundHalfEven (x / u)) - x / u) * u = toDouble x - x"
      using u by (simp add: td algebra_simps)
    then have "\<bar>toDouble x - x\<bar> = \<bar>(of_int (roundHalfEven (x / u)) - x / u) * u\<bar>" by simp
    also have "\<dots> = \<bar>of_int (roundHalfEven (x / u)) - x / u\<bar> * u"
      using u by (simp add: abs_mult)
    finally show ?thesis by simp
  qed
  ultimately have a: "\<bar>toDouble x - x\<bar> \<le> u / 2" by simp
  have "2 powr of_int e \<le> \<bar>x\<bar>" unfolding e_def by (rule binade_bounds(1) [OF False])
  moreover have "u = 2 powr of_int e / 2 ^ 52"
    by (simp add: u_def powr_diff)
  ultimately have "u \<le> \<bar>x\<bar> / 2 ^ 52" by (simp add: divide_right_mono)
  then have "u / 2 \<le> \<bar>x\<bar> / 2 ^ 53" by simp
  with a show ?thesis by linarith
qed

lemma toDouble_nonneg: "0 \<le> x \<Longrightarrow> 0 \<le> toDouble x"
proof -
  assume "0 \<le> x"
  then have "0 \<le> roundHalfEven (x / 2 powr (of_int \<lfloor>log 2 \<bar>x\<bar>\<rfloor> - 52))"
    by (intro roundHalfEven_ge) simp
  then show ?thesis by (simp add: toDouble_def Let_def)
qed

lemma toDouble_nonpos: "x \<le> 0 \<Longrightarrow> toDouble x \<le> 0"
  using toDouble_nonneg [of "- x"] by (simp add: toDouble_minus)

lemma toDouble_pos: "0 < x \<Longrightarrow> 0 < toDouble x"
proof -
  assume x: "0 < x"
  have "\<bar>toDouble x - x\<bar> \<le> \<bar>x\<bar> / 2 ^ 53" by (rule toDouble_error)
  moreover have "\<bar>x\<bar> / 2 ^ 53 < x" using x by simp
  ultimately show ?thesis by linarith
qed

lemma toDouble_eval:
  assumes "u = 2 powr of_int j" and "2 ^ 52 * u \<le> \<bar>x\<bar>" and "\<bar>x\<bar> < 2 ^ 53 * u"
  shows "toDouble x = of_int (roundHalfEven (x / u)) * u"
proof -
  have u: "0 < u" by (simp add: assms(1))
  have e52: "(2::real) powr of_int (j + 52) = 2 ^ 52 * 2 powr of_int j"
    by (simp add: powr_add)
  have e53: "(2::real) powr (of_int (j + 52) + 1) = 2 ^ 53 * 2 powr of_int j"
    by (simp add: powr_add)
  have "2 powr of_int (j + 52) \<le> \<bar>x\<bar>"
    using assms(2) unfolding assms(1) e52 .
  moreover have "\<bar>x\<bar> < 2 powr (of_int (j + 52) + 1)"
    using assms(3) unfolding assms(1) e53 .
  ultimately have "\<lfloor>log 2 \<bar>x\<bar>\<rfloor> = j + 52" by (rule binade_unique)
  moreover have "x \<noteq> 0" using assms(2) u by auto
  ultimately show ?thesis by (simp add: toDouble_def Let_def assms(1))
qed

lemma toDouble_eval_pos:
  assumes "2 ^ 52 * 2 ^ n \<le> \<bar>x\<bar>" and "\<bar>x\<bar> < 2 ^ 53 * 2 ^ n"
  shows "toDouble x = of_int (roundHalfEven (x / 2 ^ n)) * 2 ^ n"
proof -
  have "(2::real) ^ n = 2 powr of_int (int n)" by (simp add: powr_realpow)
  from toDouble_eval [OF this assms] show ?thesis .
qed

lemma toDouble_eval_neg:
  assumes "2 ^ 52 / 2 ^ n \<le> \<bar>x\<bar>" and "\<bar>x\<bar> < 2 ^ 53 / 2 ^ n"
  shows "toDouble x = of_int (roundHalfEven (x * 2 ^ n)) / 2 ^ n"
proof -
  have u: "(1::real) / 2 ^ n = 2 powr of_int (- int n)"
    by (simp add: powr_minus powr_realpow divide_inverse)
  have "toDouble x = of_int (roundHalfEven (x / (1 / 2 ^ n))) * (1 / 2 ^ n)"
    using assms by (intro toDouble_eval [OF u]) simp_all
  then show ?thesis by simp
qed

lemma roundHalfEven_abs_bounds:
  assumes "2 ^ 52 \<le> \<bar>y\<bar>" and "\<bar>y\<bar> < 2 ^ 53"
  shows "2 ^ 52 \<le> \<bar>roundHalfEven y\<bar> \<and> \<bar>roundHalfEven y\<bar> \<le> 2 ^ 53"
proof -
  have pos: "2 ^ 52 \<le> roundHalfEven z \<and> roundHalfEven z \<le> 2 ^ 53"
    if "2 ^ 52 \<le> z" and "z < 2 ^ 53" for z :: real
  proof -
    have "of_int (2 ^ 52) \<le> z" using that(1) by simp
    moreover have "z \<le> of_int (2 ^ 53)" using that(2) by simp
    ultimately show ?thesis using roundHalfEven_ge roundHalfEven_le by blast
  qed
  show ?thesis
  proof (cases "0 \<le> y")
    case True
    with assms have "2 ^ 52 \<le> y" "y < 2 ^ 53" by linarith+
    from pos [OF this] show ?thesis by auto
  next
    case False
    with assms have "2 ^ 52 \<le> - y" "- y < 2 ^ 53" by linarith+
    from pos [OF this] show ?thesis by (simp add: roundHalfEven_minus)
  qed
qed

lemma toDouble_mantissa:
  assumes "x \<noteq> 0"
  defines "u \<equiv> 2 powr of_int (\<lfloor>log 2 \<bar>x\<bar>\<rfloor> - 52)"
  shows "toDouble x = of_int (roundHalfEven (x / u)) * u"
    and "2 ^ 52 \<le> \<bar>roundHalfEven (x / u)\<bar>" and "\<bar>roundHalfEven (x / u)\<bar> \<le> 2 ^ 53"
proof -
  define e where "e = \<lfloor>log 2 \<bar>x\<bar>\<rfloor>"
  have u: "0 < u" by (simp add: u_def)
  have ue: "u = 2 powr of_int e / 2 ^ 52" by (simp add: u_def e_def powr_diff)
  show "toDouble x = of_int (roundHalfEven (x / u)) * u"
    using assms(1) by (simp add: toDouble_def Let_def u_def)
  have lo: "2 powr of_int e \<le> \<bar>x\<bar>" and hi: "\<bar>x\<bar> < 2 powr (of_int e + 1)"
    unfolding e_def by (rule binade_bounds [OF assms(1)])+
  have "(2::real) powr (of_int e + 1) = 2 * 2 powr of_int e" by (simp add: powr_add)
  with hi have hi': "\<bar>x\<bar> < 2 * 2 powr of_int e" by simp
  have pe: "0 < (2::real) powr of_int e" by simp
  have a: "2 ^ 52 \<le> \<bar>x\<bar> / u"
    using lo pe unfolding ue by (simp add: field_simps)
  have b: "\<bar>x\<bar> / u < 2 ^ 53"
    using hi' pe unfolding ue by (simp add: field_simps)
  have abs: "\<bar>x / u\<bar> = \<bar>x\<bar> / u" using u by simp
  from a b have "2 ^ 52 \<le> \<bar>x / u\<bar>" "\<bar>x / u\<bar> < 2 ^ 53" unfolding abs by simp_all
  from roundHalfEven_abs_bounds [OF this]
  show "2 ^ 52 \<le> \<bar>roundHalfEven (x / u)\<bar>" and "\<bar>roundHalfEven (x / u)\<bar> \<le> 2 ^ 53"
    by simp_all
qed

lemma toDouble_idem: "toDouble (toDouble x) = toDouble x"
proof (cases "x = 0")
  case True
  then show ?thesis by (simp add: toDouble_zero)
next
  case False
  define j where "j = \<lfloor>log 2 \<bar>x\<bar>\<rfloor> - 52"
  define u :: real where "u = 2 powr of_int j"
  define N where "N = roundHalfEven (x / u)"
  note m = toDouble_mantissa [OF False, folded j_def, folded u_def, folded N_def]
  have u: "0 < u" by (simp add: u_def)
  have y: "toDouble x = of_int N * u" by (rule m(1))
  have absy: "\<bar>of_int N * u\<bar> = of_int \<bar>N\<bar> * u" using u by (simp add: abs_mult)
  show ?thesis
  proof (cases "\<bar>N\<bar> < 2 ^ 53")
    case True
    have lo: "2 ^ 52 * u \<le> \<bar>of_int N * u\<bar>"
    proof -
      have "(2::real) ^ 52 \<le> of_int \<bar>N\<bar>" using m(2) by (metis of_int_le_iff of_int_numeral of_int_power)
      then show ?thesis unfolding absy using u by (simp add: mult_right_mono)
    qed
    have hi: "\<bar>of_int N * u\<bar> < 2 ^ 53 * u"
    proof -
      have "of_int \<bar>N\<bar> < (2::real) ^ 53" using True by (metis of_int_less_iff of_int_numeral of_int_power)
      then show ?thesis unfolding absy using u by (simp add: mult_strict_right_mono)
    qed
    have "toDouble (of_int N * u) = of_int (roundHalfEven (of_int N * u / u)) * u"
      by (rule toDouble_eval [OF u_def lo hi])
    then show ?thesis using u by (simp add: y roundHalfEven_of_int)
  next
    case False
    with m(3) have N: "\<bar>N\<bar> = 2 ^ 53" by simp
    define u' :: real where "u' = 2 powr of_int (j + 1)"
    have u': "u' = 2 * u" by (simp add: u'_def u_def powr_add)
    have absN: "of_int \<bar>N\<bar> = (2::real) ^ 53" using N by simp
    have lo: "2 ^ 52 * u' \<le> \<bar>of_int N * u\<bar>" unfolding absy absN u' by simp
    have hi: "\<bar>of_int N * u\<bar> < 2 ^ 53 * u'" unfolding absy absN u' using u by simp
    have half: "of_int N * u / u' = of_int (N div 2)"
    proof -
      have "N = 2 ^ 53 \<or> N = - (2 ^ 53)" using N by linarith
      then have "N = 2 * (N div 2)" by auto
      then have "(of_int N :: real) = 2 * of_int (N div 2)"
        by (metis of_int_mult of_int_numeral)
      then show ?thesis using u by (simp add: u')
    qed
    have "toDouble (of_int N * u) = of_int (roundHalfEven (of_int N * u / u')) * u'"
      by (rule toDouble_eval [OF u'_def lo hi])
    also have "\<dots> = of_int (N div 2) * u'" by (simp add: half roundHalfEven_of_int)
    also have "\<dots> = of_int N * u" using half u by (simp add: u')
    finally show ?thesis by (simp add: y)
  qed
qed

lemma toDouble_one: "toDouble 1 = 1"
  by (subst toDouble_eval_neg [where n = 52]) (simp_all add: roundHalfEven_def)

lemma toDouble_095: "toDouble (19 / 20) = 4278419646001971 / 4503599627370496"
  by (subst toDouble_eval_neg [where n = 53]) (simp_all add: roundHalfEven_def)

lemma toDouble_095_pos: "0 < toDouble 0.95"
  by (rule toDouble_pos) simp

lemma cancel_error: "\<bar>toDouble (P + toDouble (t - P)) - t\<bar> \<le> (\<bar>t\<bar> + \<bar>P\<bar>) / 2 ^ 51"
proof -
  define r where "r = toDouble (t - P)"
  define w where "w = P + r"
  define s where "s = \<bar>t\<bar> + \<bar>P\<bar>"
  define h :: real where "h = 1 / 2 ^ 53"
  have s: "0 \<le> s" by (simp add: s_def)
  have h: "0 \<le> h" "h \<le> 1" by (simp_all add: h_def)
  have err: "\<bar>toDouble x - x\<bar> \<le> h * \<bar>x\<bar>" for x
    using toDouble_error [of x] by (simp add: h_def)
  have "\<bar>t - P\<bar> \<le> s" unfolding s_def by linarith
  then have "h * \<bar>t - P\<bar> \<le> h * s" using h(1) by (rule mult_left_mono)
  moreover have "w - t = r - (t - P)" by (simp add: w_def)
  ultimately have wt: "\<bar>w - t\<bar> \<le> h * s" using err [of "t - P"] unfolding r_def by linarith
  have "h * s \<le> 1 * s" using h(2) s by (rule mult_right_mono)
  moreover have "\<bar>t\<bar> \<le> s" unfolding s_def by simp
  ultimately have "\<bar>w\<bar> \<le> 2 * s" using wt by linarith
  then have "h * \<bar>w\<bar> \<le> h * (2 * s)" using h(1) by (rule mult_left_mono)
  then have "\<bar>toDouble w - w\<bar> \<le> h * (2 * s)" using err [of w] by linarith
  with wt have "\<bar>toDouble w - t\<bar> \<le> 3 * (h * s)" by linarith
  moreover have "3 * (h * s) \<le> s / 2 ^ 51" using s by (simp add: h_def)
  ultimately show ?thesis unfolding w_def r_def s_def by linarith
qed

lemma rel_mult:
  fixes a b A B k1 k2 :: real
  assumes "\<bar>a - A\<bar> \<le> k1 * \<bar>A\<bar>" and "\<bar>b - B\<bar> \<le> k2 * \<bar>B\<bar>"
  shows "\<bar>a * b - A * B\<bar> \<le> (k1 + k2 + k1 * k2) * \<bar>A * B\<bar>"
proof -
  have e: "a * b - A * B = (a - A) * B + A * (b - B) + (a - A) * (b - B)"
    by (simp add: algebra_simps)
  have "\<bar>(a - A) * B\<bar> \<le> k1 * \<bar>A\<bar> * \<bar>B\<bar>"
    unfolding abs_mult using assms(1) by (simp add: mult_right_mono)
  moreover have "\<bar>A * (b - B)\<bar> \<le> \<bar>A\<bar> * (k2 * \<bar>B\<bar>)"
    unfolding abs_mult using assms(2) by (simp add: mult_left_mono)
  moreover have "\<bar>(a - A) * (b - B)\<bar> \<le> (k1 * \<bar>A\<bar>) * (k2 * \<bar>B\<bar>)"
    unfolding abs_mult using assms by (intro mult_mono) (auto intro: order_trans [OF abs_ge_zero])
  ultimately have "\<bar>a * b - A * B\<bar> \<le> k1 * \<bar>A\<bar> * \<bar>B\<bar> + \<bar>A\<bar> * (k2 * \<bar>B\<bar>) + (k1 * \<bar>A\<bar>) * (k2 * \<bar>B\<bar>)"
    unfolding e by linarith
  also have "\<dots> = (k1 + k2 + k1 * k2) * \<bar>A * B\<bar>" by (simp add: abs_mult algebra_simps)
  finally show ?thesis .
qed

lemma rel_round:
  fixes a A k :: real
  assumes "\<bar>a - A\<bar> \<le> k * \<bar>A\<bar>"
  shows "\<bar>toDouble a - A\<bar> \<le> (k + (1 + k) / 2 ^ 53) * \<bar>A\<bar>"
proof -
  have "\<bar>a\<bar> \<le> \<bar>A\<bar> + k * \<bar>A\<bar>" using assms by linarith
  then have "\<bar>a\<bar> / 2 ^ 53 \<le> (\<bar>A\<bar> + k * \<bar>A\<bar>) / 2 ^ 53" by (simp add: divide_right_mono)
  moreover have "\<bar>toDouble a - a\<bar> \<le> \<bar>a\<bar> / 2 ^ 53" by (rule toDouble_error)
  ultimately have "\<bar>toDouble a - A\<bar> \<le> k * \<bar>A\<bar> + (\<bar>A\<bar> + k * \<bar>A\<bar>) / 2 ^ 53"
    using assms by linarith
  also have "\<dots> = (k + (1 + k) / 2 ^ 53) * \<bar>A\<bar>" by (simp add: algebra_simps)
  finally show ?thesis .
qed

lemma marginScaled_error: "\<bar>marginScaled z - 95 * z\<bar> \<le> 95 * \<bar>z\<bar> / 2 ^ 50"
proof -
  define h :: real where "h = 1 / 2 ^ 53"
  have z: "\<bar>toDouble z - z\<bar> \<le> h * \<bar>z\<bar>"
    using toDouble_error [of z] by (simp add: h_def)
  have c: "\<bar>toDouble 0.95 - 0.95\<bar> \<le> h * \<bar>0.95\<bar>"
    using toDouble_error [of "0.95"] by (simp add: h_def)
  note p = rel_mult [OF z c]
  note t1 = rel_round [OF p]
  have hundred: "\<bar>(100::real) - 100\<bar> \<le> 0 * \<bar>100\<bar>" by simp
  note q = rel_mult [OF t1 hundred]
  note t2 = rel_round [OF q]
  have k: "h + h + h * h + (1 + (h + h + h * h)) / 2 ^ 53 + 0 +
      (h + h + h * h + (1 + (h + h + h * h)) / 2 ^ 53) * 0 +
      (1 + (h + h + h * h + (1 + (h + h + h * h)) / 2 ^ 53 + 0 +
      (h + h + h * h + (1 + (h + h + h * h)) / 2 ^ 53) * 0)) / 2 ^ 53 \<le> 1 / 2 ^ 50"
    by (simp add: h_def)
  have "\<bar>marginScaled z - z * 0.95 * 100\<bar> \<le> (1 / 2 ^ 50) * \<bar>z * 0.95 * 100\<bar>"
    using t2 mult_right_mono [OF k abs_ge_zero [of "z * 0.95 * 100"]]
    unfolding marginScaled_def by linarith
  then show ?thesis by (simp add: abs_mult)
qed

lemma marginScaled_nonpos: "z \<le> 0 \<Longrightarrow> marginScaled z \<le> 0"
proof -
  assume "z \<le> 0"
  then have "toDouble z \<le> 0" by (rule toDouble_nonpos)
  then have "toDouble z * toDouble 0.95 \<le> 0"
    using toDouble_095_pos by (simp add: mult_nonpos_nonneg)
  then have "toDouble (toDouble z * toDouble 0.95) \<le> 0" by (rule toDouble_nonpos)
  then have "toDouble (toDouble z * toDouble 0.95) * 100 \<le> 0" by simp
  then show ?thesis unfolding marginScaled_def by (rule toDouble_nonpos)
qed

lemma marginScaled_zero: "marginScaled 0 = 0"
  by (simp add: marginScaled_def toDouble_zero)

lemma marginScaled_one: "marginScaled 1 = 95"
proof -
  have "marginScaled 1 = toDouble (toDouble (toDouble 1 * toDouble (19 / 20)) * 100)"
    by (simp add: marginScaled_def)
  also have "toDouble 1 * toDouble (19 / 20) = 4278419646001971 / 4503599627370496"
    by (simp add: toDouble_one toDouble_095)
  also have "toDouble (4278419646001971 / 4503599627370496) =
      4278419646001971 / 4503599627370496"
    by (subst toDouble_eval_neg [where n = 53]) (simp_all add: roundHalfEven_def)
  also have "4278419646001971 / 4503599627370496 * 100 =
      (106960491150049275 / 1125899906842624 :: real)" by simp
  also have "toDouble (106960491150049275 / 1125899906842624) = 95"
    by (subst toDouble_eval_neg [where n = 46]) (simp_all add: roundHalfEven_def)
  finally show ?thesis .
qed

section \<open>Facts about the landmark geometry\<close>

lemma foldl_sum_points:
  "foldl (\<lambda>acc p. \<lparr>px = jadd (px acc) (px p), py = jadd (py acc) (py p)\<rparr>)
     \<lparr>px = Num ax, py = Num ay\<rparr> (map mkPoint ps) =
   \<lparr>px = Num (ax + sum_list (map fst ps)), py = Num (ay + sum_list (map snd ps))\<rparr>"
  by (induction ps arbitrary: ax ay) (simp_all add: mkPoint_def add.assoc)

lemma getCentroid_finite:
  assumes "ps \<noteq> []"
  shows "getCentroid (map mkPoint ps) = mkPoint (spec_centroid ps)"
  using assms
  by (simp add: getCentroid_def Let_def foldl_sum_points spec_centroid_def mkPoint_def)

lemma getCentroid_Nil: "getCentroid [] = \<lparr>px = NaN, py = NaN\<rparr>"
  by (simp add: getCentroid_def)

lemma eyeGeometry_Num:
  assumes "getCentroid (leftEye d) = \<lparr>px = Num lx, py = Num ly\<rparr>"
    and "getCentroid (rightEye d) = \<lparr>px = Num rx, py = Num ry\<rparr>"
  shows "eyeGeometry d =
    \<lparr>eyeDx = Num (rx - lx), eyeDy = Num (ry - ly),
     currentEyesDist = Num (sqrt ((rx - lx) * (rx - lx) + (ry - ly) * (ry - ly))),
     angle = Num (atan2r (ry - ly) (rx - lx)),
     eyesCenter = \<lparr>px = Num ((lx + rx) / 2), py = Num ((ly + ry) / 2)\<rparr>\<rparr>"
  using assms by (simp add: eyeGeometry_def Let_def jsub_def not_less)

lemma geometry_finite:
  assumes "currentEyesDist (eyeGeometry d) = Num e"
  shows "\<exists>lx ly rx ry. getCentroid (leftEye d) = \<lparr>px = Num lx, py = Num ly\<rparr> \<and>
           getCentroid (rightEye d) = \<lparr>px = Num rx, py = Num ry\<rparr>"
proof -
  let ?L = "getCentroid (leftEye d)" and ?R = "getCentroid (rightEye d)"
  from assms have "jsqrt (jadd (jmul (jsub (px ?R) (px ?L)) (jsub (px ?R) (px ?L)))
      (jmul (jsub (py ?R) (py ?L)) (jsub (py ?R) (py ?L)))) = Num e"
    by (simp add: eyeGeometry_def Let_def)
  then obtain u v where "jsub (px ?R) (px ?L) = Num u" "jsub (py ?R) (py ?L) = Num v"
    using jnorm_Num_D by blast
  then obtain rx lx ry ly where "px ?R = Num rx" "px ?L = Num lx" "py ?R = Num ry" "py ?L = Num ly"
    using jsub_Num_D by blast
  then have "?L = \<lparr>px = Num lx, py = Num ly\<rparr>" "?R = \<lparr>px = Num rx, py = Num ry\<rparr>"
    using point_eta [of ?L] point_eta [of ?R] by simp_all
  then show ?thesis by blast
qed

lemma geometry_coincident:
  assumes "currentEyesDist (eyeGeometry d) = Num 0"
  shows "\<exists>cx cy. eyeGeometry d = \<lparr>eyeDx = Num 0, eyeDy = Num 0, currentEyesDist = Num 0,
     angle = Num 0, eyesCenter = \<lparr>px = Num cx, py = Num cy\<rparr>\<rparr>"
proof -
  obtain lx ly rx ry where c: "getCentroid (leftEye d) = \<lparr>px = Num lx, py = Num ly\<rparr>"
      "getCentroid (rightEye d) = \<lparr>px = Num rx, py = Num ry\<rparr>"
    using geometry_finite [OF assms] by blast
  note g = eyeGeometry_Num [OF c]
  from assms g have "sqrt ((rx - lx) * (rx - lx) + (ry - ly) * (ry - ly)) = 0" by simp
  then have "(rx - lx) * (rx - lx) + (ry - ly) * (ry - ly) = 0" by simp
  then have "rx - lx = 0" "ry - ly = 0"
    by (simp_all add: sum_squares_eq_zero_iff)
  then show ?thesis by (simp add: g atan2r_def)
qed

lemma eyeGeometry_missing:
  assumes "leftEye d = [] \<or> rightEye d = []"
  shows "eyeGeometry d = \<lparr>eyeDx = NaN, eyeDy = NaN, currentEyesDist = NaN,
     angle = NaN, eyesCenter = \<lparr>px = NaN, py = NaN\<rparr>\<rparr>"
proof -
  let ?L = "getCentroid (leftEye d)" and ?R = "getCentroid (rightEye d)"
  from assms have "(px ?L = NaN \<and> py ?L = NaN) \<or> (px ?R = NaN \<and> py ?R = NaN)"
    by (auto simp: getCentroid_Nil)
  then have "jsub (px ?R) (px ?L) = NaN" "jsub (py ?R) (py ?L) = NaN"
    "jadd (px ?L) (px ?R) = NaN" "jadd (py ?L) (py ?R) = NaN"
    by (auto simp: jsub_NaN jadd_NaN_right)
  then show ?thesis by (simp add: eyeGeometry_def Let_def)
qed

section \<open>Facts about the transform\<close>



lemma alignTransform_eyesCenter:
  assumes "currentEyesDist (eyeGeometry d) = Num e" and "0 < e"
  shows "transformPoint (alignTransform cw ch (Num z) d) (eyesCenter (eyeGeometry d)) =
         \<lparr>px = Num (real cw * 0.5), py = Num (real ch * 0.4)\<rparr>"
proof -
  obtain lx ly rx ry where c: "getCentroid (leftEye d) = \<lparr>px = Num lx, py = Num ly\<rparr>"
      "getCentroid (rightEye d) = \<lparr>px = Num rx, py = Num ry\<rparr>"
    using geometry_finite [OF assms(1)] by blast
  note g = eyeGeometry_Num [OF c]
  from assms g have e: "sqrt ((rx - lx) * (rx - lx) + (ry - ly) * (ry - ly)) = e" by simp
  with assms(2) have ne: "sqrt ((rx - lx) * (rx - lx) + (ry - ly) * (ry - ly)) \<noteq> 0" by simp
  show ?thesis
    using ne
    apply (simp add: alignTransform_def alignScale_def g Let_def ofDim_def identityMatrix_def
      ctxTranslate_def ctxScale_def ctxRotate_def transformPoint_def jsub_def)
    done
qed



lemma alignTransform_missing:
  assumes "leftEye d = [] \<or> rightEye d = []"
  shows "alignTransform cw ch z d =
     \<lparr>ma = Num 1, mb = Num 0, mc = Num 0, md = Num 1,
      me = Num (real cw * 0.5), mf = Num (real ch * 0.4)\<rparr>"
  by (simp add: alignTransform_def alignScale_def eyeGeometry_missing [OF assms] Let_def
      ofDim_def identityMatrix_def ctxTranslate_def ctxScale_def ctxRotate_def jdiv_NaN_right)

lemma alignTransform_coincident:
  assumes "eyeGeometry d = \<lparr>eyeDx = Num 0, eyeDy = Num 0, currentEyesDist = Num 0,
     angle = Num 0, eyesCenter = \<lparr>px = Num cx, py = Num cy\<rparr>\<rparr>"
    and "0 < cw" and "0 < z"
  shows "alignScale cw (Num z) d = PosInf"
    and "alignTransform cw ch (Num z) d =
     \<lparr>ma = Num 1, mb = Num 0, mc = Num 0, md = Num 1,
      me = Num (real cw * 0.5 - cx), mf = Num (real ch * 0.4 - cy)\<rparr>"
  using assms(2,3)
  by (simp_all add: alignTransform_def alignScale_def assms(1) Let_def
      ofDim_def identityMatrix_def ctxTranslate_def ctxScale_def ctxRotate_def jsub_def)

lemma renderFrame_aligned:
  assumes "i < length (images s)" and "detections (images s ! i) = Some d" and "alignEyes s"
  shows "canvasContent (renderFrame i s) =
         Some (Aligned (original (images s ! i))
                (alignTransform (canvasWidth s) (canvasHeight s) (zoom s) d))"
  using assms by (simp add: renderFrame_def Let_def)

section \<open>Facts about the transform in doubles\<close>

lemma dadd_Num: "dadd (Num a) (Num b) = Num (toDouble (a + b))"
  by (simp add: dadd_def)

lemma dsub_Num: "dsub (Num a) (Num b) = Num (toDouble (a - b))"
  by (simp add: dsub_def jsub_def)

lemma dmul_Num: "dmul (Num a) (Num b) = Num (toDouble (a * b))"
  by (simp add: dmul_def)

lemma ddiv_Num: "b \<noteq> 0 \<Longrightarrow> ddiv (Num a) (Num b) = Num (toDouble (a / b))"
  by (simp add: ddiv_def)

lemma linearPartD_Num:
  "linearPartD \<lparr>ma = Num a, mb = Num b, mc = Num c, md = Num d, me = e, mf = f\<rparr>
     \<lparr>px = Num p, py = Num q\<rparr> =
   \<lparr>px = Num (toDouble (toDouble (a * p) + toDouble (c * q))),
    py = Num (toDouble (toDouble (b * p) + toDouble (d * q)))\<rparr>"
  by (simp add: linearPartD_def dadd_Num dmul_Num)

lemma toDouble_minus_minus: "toDouble (- x - y) = - toDouble (x + y)"
proof -
  have "- x - y = - (x + y)" by simp
  then show ?thesis by (simp only: toDouble_minus)
qed

lemma transformPointD_translate_back:
  "transformPointD (ctxTranslateD (Num (- p)) (Num (- q))
       \<lparr>ma = Num a, mb = Num b, mc = Num c, md = Num d, me = Num e, mf = Num f\<rparr>)
     \<lparr>px = Num p, py = Num q\<rparr> =
   \<lparr>px = Num (toDouble (toDouble (toDouble (a * p) + toDouble (c * q)) +
            toDouble (e - toDouble (toDouble (a * p) + toDouble (c * q))))),
    py = Num (toDouble (toDouble (toDouble (b * p) + toDouble (d * q)) +
            toDouble (f - toDouble (toDouble (b * p) + toDouble (d * q)))))\<rparr>"
  by (simp add: transformPointD_def linearPartD_def ctxTranslateD_def dadd_Num dmul_Num
      toDouble_minus toDouble_minus_minus)

lemma linearPartD_translate:
  "linearPartD (ctxTranslateD (Num tx) (Num ty)
       \<lparr>ma = Num a, mb = Num b, mc = Num c, md = Num d, me = e, mf = f\<rparr>)
     \<lparr>px = Num p, py = Num q\<rparr> =
   \<lparr>px = Num (toDouble (toDouble (a * p) + toDouble (c * q))),
    py = Num (toDouble (toDouble (b * p) + toDouble (d * q)))\<rparr>"
  by (simp add: linearPartD_def ctxTranslateD_def dadd_Num dmul_Num)

lemma alignTransformD_form:
  assumes g: "eyeGeometry d = \<lparr>eyeDx = dx, eyeDy = dy, currentEyesDist = Num e,
      angle = Num a, eyesCenter = \<lparr>px = Num p, py = Num q\<rparr>\<rparr>"
    and e: "0 < e"
  shows "alignTransformD cosD sinD cw ch (Num z) d =
     ctxTranslateD (Num (- toDouble p)) (Num (- toDouble q))
       \<lparr>ma = Num (toDouble (toDouble (toDouble (real cw * toDouble z) / toDouble e) *
                 cosD (- toDouble a))),
        mb = Num (toDouble (toDouble (toDouble (real cw * toDouble z) / toDouble e) *
                 sinD (- toDouble a))),
        mc = Num (- toDouble (toDouble (toDouble (real cw * toDouble z) / toDouble e) *
                 sinD (- toDouble a))),
        md = Num (toDouble (toDouble (toDouble (real cw * toDouble z) / toDouble e) *
                 cosD (- toDouble a))),
        me = Num (toDouble (real cw * 0.5)),
        mf = Num (toDouble (real ch * toDouble 0.4))\<rparr>"
proof -
  have ne: "toDouble e \<noteq> 0" using toDouble_pos [OF e] by simp
  show ?thesis
    using ne
    by (simp add: alignTransformD_def g Let_def ofDim_def identityMatrix_def
      ctxTranslateD_def ctxScaleD_def ctxRotateD_def dadd_Num dsub_Num dmul_Num ddiv_Num
      toDouble_idem toDouble_zero toDouble_minus)
qed

lemma alignTransformD_eyesCenter:
  assumes "currentEyesDist (eyeGeometry d) = Num e" and "0 < e"
  shows "\<exists>X Y A B.
     transformPointD (alignTransformD cosD sinD cw ch (Num z) d)
       (pointD (eyesCenter (eyeGeometry d))) = \<lparr>px = Num X, py = Num Y\<rparr> \<and>
     linearPartD (alignTransformD cosD sinD cw ch (Num z) d)
       (pointD (eyesCenter (eyeGeometry d))) = \<lparr>px = Num A, py = Num B\<rparr> \<and>
     \<bar>X - toDouble (real cw * 0.5)\<bar> \<le> (\<bar>toDouble (real cw * 0.5)\<bar> + \<bar>A\<bar>) / 2 ^ 51 \<and>
     \<bar>Y - toDouble (real ch * toDouble 0.4)\<bar> \<le>
       (\<bar>toDouble (real ch * toDouble 0.4)\<bar> + \<bar>B\<bar>) / 2 ^ 51"
proof -
  obtain lx ly rx ry where c: "getCentroid (leftEye d) = \<lparr>px = Num lx, py = Num ly\<rparr>"
      "getCentroid (rightEye d) = \<lparr>px = Num rx, py = Num ry\<rparr>"
    using geometry_finite [OF assms(1)] by blast
  note g0 = eyeGeometry_Num [OF c]
  define p q a where "p = (lx + rx) / 2" and "q = (ly + ry) / 2"
    and "a = atan2r (ry - ly) (rx - lx)"
  from assms(1) g0 have e: "sqrt ((rx - lx) * (rx - lx) + (ry - ly) * (ry - ly)) = e" by simp
  have g: "eyeGeometry d = \<lparr>eyeDx = Num (rx - lx), eyeDy = Num (ry - ly),
      currentEyesDist = Num e, angle = Num a, eyesCenter = \<lparr>px = Num p, py = Num q\<rparr>\<rparr>"
    unfolding g0 e p_def q_def a_def ..
  have pt: "pointD (eyesCenter (eyeGeometry d)) = \<lparr>px = Num (toDouble p), py = Num (toDouble q)\<rparr>"
    by (simp add: g pointD_def)
  note m = alignTransformD_form [OF g assms(2), of cosD sinD cw ch z]
  show ?thesis
    unfolding m pt transformPointD_translate_back linearPartD_translate
    apply (rule exI)+
    apply (rule conjI, rule refl)
    apply (rule conjI, rule refl)
    apply (rule conjI; rule cancel_error)
    done
qed

section \<open>Facts about auto-fit\<close>

lemma zoom_renderFrame: "zoom (renderFrame i s) = zoom s"
  by (simp add: renderFrame_def Let_def split: option.split)

lemma minSafeZoom_showLoading: "minSafeZoom (showLoading t s) = minSafeZoom s"
  by (simp add: minSafeZoom_def showLoading_def)

lemma zoom_autoFitZoom:
  "images s \<noteq> [] \<Longrightarrow> zoom (autoFitZoom s) = clampedZoom (minSafeZoom s)"
  by (simp add: autoFitZoom_def Let_def zoom_renderFrame minSafeZoom_showLoading hideLoading_def)

lemma zoomRangeValue_autoFitZoom:
  "images s \<noteq> [] \<Longrightarrow>
   zoomRangeValue (autoFitZoom s) = jround (jmul (clampedZoom (minSafeZoom s)) (Num 100))"
  by (simp add: autoFitZoom_def Let_def minSafeZoom_showLoading hideLoading_def renderFrame_def
      split: option.split)

lemma finalZoom_Num: "finalZoom (Num z) = Num (of_int \<lfloor>marginScaled z\<rfloor> / 100)"
  by (simp add: finalZoom_def dmul_def marginScaled_def)

lemma clampedZoom_Num:
  "clampedZoom (Num z) = Num (spec_clamp (of_int \<lfloor>marginScaled z\<rfloor> / 100))"
  by (simp only: clampedZoom_def finalZoom_Num jmin_Num jmax_Num spec_clamp_def)

lemma clampedZoom_PosInf: "clampedZoom PosInf = Num 1.0"
  using toDouble_095_pos
  by (simp add: clampedZoom_def finalZoom_def dmul_def jmin_def jmax_def)

lemma clampedZoom_NegInf: "clampedZoom NegInf = Num 0.1"
  using toDouble_095_pos
  by (simp add: clampedZoom_def finalZoom_def dmul_def jmin_def jmax_def)

lemma clampedZoom_NaN: "clampedZoom NaN = NaN"
  by (simp add: clampedZoom_def finalZoom_def dmul_def jmin_def jmax_def)

lemma clampedZoom_one: "clampedZoom (Num 1) = Num 0.95"
  by (simp add: clampedZoom_Num marginScaled_one spec_clamp_def)

lemma clampedZoom_zero: "clampedZoom (Num 0) = Num 0.1"
  by (simp add: clampedZoom_Num marginScaled_zero spec_clamp_def)

lemma clampedZoom_nonpos:
  assumes "jle v (Num 0)"
  shows "clampedZoom v = Num 0.1"
proof (cases v)
  case (Num z)
  with assms have "z \<le> 0" by (auto simp: jle_def)
  then have "marginScaled z \<le> 0" by (rule marginScaled_nonpos)
  then have "\<lfloor>marginScaled z\<rfloor> \<le> 0" by (simp add: floor_le_zero)
  then have "real_of_int \<lfloor>marginScaled z\<rfloor> / 100 \<le> 0"
    by (simp add: divide_nonpos_pos)
  then show ?thesis using Num by (simp add: clampedZoom_Num spec_clamp_def)
next
  case PosInf
  with assms show ?thesis by (simp add: jle_def)
next
  case NegInf
  then show ?thesis by (simp add: clampedZoom_NegInf)
next
  case NaN
  with assms show ?thesis by (simp add: jle_def)
qed

lemma floor_between:
  fixes l m u x :: real
  assumes "l \<le> m" "m \<le> u" "l \<le> x" "x \<le> u" "\<lfloor>l\<rfloor> = \<lfloor>u\<rfloor>"
  shows "\<lfloor>m\<rfloor> = \<lfloor>x\<rfloor>"
proof -
  have "\<lfloor>l\<rfloor> \<le> \<lfloor>m\<rfloor>" "\<lfloor>m\<rfloor> \<le> \<lfloor>u\<rfloor>" "\<lfloor>l\<rfloor> \<le> \<lfloor>x\<rfloor>" "\<lfloor>x\<rfloor> \<le> \<lfloor>u\<rfloor>"
    using assms(1-4) by (simp_all add: floor_mono)
  with assms(5) show ?thesis by linarith
qed

lemma marginScaled_agrees:
  assumes "\<lfloor>spec_margin z * 100 - 95 * \<bar>z\<bar> / 2 ^ 50\<rfloor> = \<lfloor>spec_margin z * 100 + 95 * \<bar>z\<bar> / 2 ^ 50\<rfloor>"
  shows "of_int \<lfloor>marginScaled z\<rfloor> / 100 = spec_floor2 (spec_margin z)"
proof -
  have e: "\<bar>marginScaled z - spec_margin z * 100\<bar> \<le> 95 * \<bar>z\<bar> / 2 ^ 50"
    using marginScaled_error [of z] by (simp add: spec_margin_def)
  have n: "0 \<le> 95 * \<bar>z\<bar> / 2 ^ 50" by simp
  have "\<lfloor>marginScaled z\<rfloor> = \<lfloor>spec_margin z * 100\<rfloor>"
  proof (rule floor_between [OF _ _ _ _ assms])
    show "spec_margin z * 100 - 95 * \<bar>z\<bar> / 2 ^ 50 \<le> marginScaled z" using e by linarith
    show "marginScaled z \<le> spec_margin z * 100 + 95 * \<bar>z\<bar> / 2 ^ 50" using e by linarith
    show "spec_margin z * 100 - 95 * \<bar>z\<bar> / 2 ^ 50 \<le> spec_margin z * 100" using n by linarith
    show "spec_margin z * 100 \<le> spec_margin z * 100 + 95 * \<bar>z\<bar> / 2 ^ 50" using n by linarith
  qed
  then show ?thesis by (simp add: spec_floor2_def)
qed

subsection \<open>The loop over the images is a minimum\<close>

lemma jmin_spec_least: "jmin (spec_least bs) (Num b) = spec_least (bs @ [b])"
proof (cases "bs = []")
  case True
  then show ?thesis by (simp add: spec_least_def jmin_def)
next
  case False
  then have "Min (set (bs @ [b])) = min (Min (set bs)) b"
    by (simp add: min.commute)
  then show ?thesis using False by (simp add: spec_least_def jmin_Num)
qed

lemma jmin_spec_minimum: "jmin (spec_minimum vs) v = spec_minimum (vs @ [v])"
proof (cases v)
  case (Num r)
  show ?thesis
  proof (cases "NaN \<in> set vs \<or> NegInf \<in> set vs")
    case True
    then show ?thesis using Num by (auto simp: spec_minimum_def jmin_def)
  next
    case False
    then show ?thesis using Num by (simp add: spec_minimum_def jmin_spec_least)
  qed
next
  case PosInf
  then show ?thesis
    by (auto simp: spec_minimum_def spec_least_def jmin_def)
next
  case NegInf
  then show ?thesis
    by (auto simp: spec_minimum_def spec_least_def jmin_def)
next
  case NaN
  then show ?thesis by (simp add: spec_minimum_def jmin_def)
qed

lemma spec_minimum_single: "spec_minimum [v] = v"
  by (cases v) (simp_all add: spec_minimum_def spec_least_def)

lemma foldl_fitStep:
  "foldl (fitStep cw ch) (spec_minimum vs) its =
   spec_minimum (vs @ map (\<lambda>it. safeZoom cw ch (original it) (the (detections it)))
       (filter (\<lambda>it. detections it \<noteq> None) its))"
proof (induction its arbitrary: vs)
  case Nil
  show ?case by simp
next
  case (Cons it its)
  show ?case
  proof (cases "detections it")
    case None
    then show ?thesis using Cons.IH [of vs] by (simp add: fitStep_def)
  next
    case (Some d)
    then show ?thesis
      using Cons.IH [of "vs @ [safeZoom cw ch (original it) d]"]
      by (simp add: fitStep_def jmin_spec_minimum)
  qed
qed

lemma minSafeZoom_spec: "minSafeZoom s = spec_minimum (Num 1 # safeZooms s)"
  using foldl_fitStep [of "canvasWidth s" "canvasHeight s" "[Num 1]" "images s"]
  by (simp add: minSafeZoom_def safeZooms_def spec_minimum_single)

lemma foldl_fitStep_no_detections:
  "\<forall>it \<in> set its. detections it = None \<Longrightarrow> foldl (fitStep cw ch) acc its = acc"
  by (induction its arbitrary: acc) (simp_all add: fitStep_def)

subsection \<open>The loop over the corners is a minimum\<close>

lemma axis_step:
  "(if jgt (Num rot) (Num 0) then jmin (spec_least bs) (jdiv (jsub (Num ext) (Num tg)) (Num rot))
    else if jlt (Num rot) (Num 0) then jmin (spec_least bs) (jdiv (jneg (Num tg)) (Num rot))
    else spec_least bs) = spec_least (bs @ spec_axisBound ext tg rot)"
  by (simp add: jgt_def jsub_def spec_axisBound_def jmin_spec_least)

lemma cornerStep_spec:
  "cornerStep (Num cw) (Num ch) (Num (cw * 0.5)) (Num (ch * 0.4)) \<lparr>px = Num cx, py = Num cy\<rparr>
     (Num (cos (- a))) (Num (sin (- a))) (spec_least bs) \<lparr>px = Num x, py = Num y\<rparr> =
   spec_least (bs @ spec_cornerBounds cw ch cx cy a (x, y))"
proof -
  have rx: "jsub (jmul (jsub (Num x) (Num cx)) (Num (cos (- a))))
                (jmul (jsub (Num y) (Num cy)) (Num (sin (- a)))) =
            Num (fst (spec_rotate cx cy a (x, y)))"
    by (simp add: jsub_def spec_rotate_def Let_def)
  have ry: "jadd (jmul (jsub (Num x) (Num cx)) (Num (sin (- a))))
                (jmul (jsub (Num y) (Num cy)) (Num (cos (- a)))) =
            Num (snd (spec_rotate cx cy a (x, y)))"
    by (simp add: jsub_def spec_rotate_def Let_def)
  show ?thesis
    unfolding cornerStep_def Let_def point.simps rx ry axis_step spec_cornerBounds_def
    by simp
qed

lemma maxScaleForThisImage_spec:
  assumes "angle (eyeGeometry d) = Num a"
    and "eyesCenter (eyeGeometry d) = \<lparr>px = Num cx, py = Num cy\<rparr>"
  shows "maxScaleForThisImage cw ch img d =
         spec_least (spec_bounds (real cw) (real ch) cx cy a (real (width img)) (real (height img)))"
proof -
  have nil: "PosInf = spec_least []" by (simp add: spec_least_def)
  show ?thesis
    unfolding maxScaleForThisImage_def Let_def assms corners_def ofDim_def
    apply (simp only: jneg.simps jcos.simps jsin.simps jmul.simps foldl.simps)
    apply (subst nil)
    apply (simp only: cornerStep_spec spec_bounds_def spec_corners_def)
    apply simp
    done
qed

lemma safeZoom_spec:
  assumes "currentEyesDist (eyeGeometry d) = Num e"
    and "angle (eyeGeometry d) = Num a"
    and "eyesCenter (eyeGeometry d) = \<lparr>px = Num cx, py = Num cy\<rparr>"
  shows "safeZoom cw ch img d =
         jdiv (jmul (spec_least (spec_bounds (real cw) (real ch) cx cy a
                       (real (width img)) (real (height img)))) (Num e)) (Num (real cw))"
  by (simp add: safeZoom_def maxScaleForThisImage_spec [OF assms(2,3)] assms(1) ofDim_def)

subsection \<open>The bounds are not negative, and a wide image has one\<close>

lemma spec_axisBound_nonneg:
  "b \<in> set (spec_axisBound ext tg rot) \<Longrightarrow> 0 \<le> tg \<Longrightarrow> tg \<le> ext \<Longrightarrow> 0 \<le> b"
  by (auto simp: spec_axisBound_def divide_nonneg_neg split: if_splits)

lemma spec_bounds_nonneg:
  assumes "b \<in> set (spec_bounds cw ch cx cy a w h)" and "0 \<le> cw" and "0 \<le> ch"
  shows "0 \<le> b"
proof -
  from assms(1) obtain p where
    "b \<in> set (spec_axisBound cw (cw * 0.5) (fst (spec_rotate cx cy a p))) \<or>
     b \<in> set (spec_axisBound ch (ch * 0.4) (snd (spec_rotate cx cy a p)))"
    by (auto simp: spec_bounds_def spec_cornerBounds_def)
  then show ?thesis
    using assms(2,3) spec_axisBound_nonneg [of b cw "cw * 0.5"] spec_axisBound_nonneg [of b ch "ch * 0.4"]
    by auto
qed

lemma spec_least_nonneg:
  assumes "\<forall>b \<in> set bs. 0 \<le> b"
  shows "spec_least bs = PosInf \<or> (\<exists>r. 0 \<le> r \<and> spec_least bs = Num r)"
proof (cases "bs = []")
  case True
  then show ?thesis by (simp add: spec_least_def)
next
  case False
  then have "Min (set bs) \<in> set bs" by simp
  with assms have "0 \<le> Min (set bs)" by blast
  with False show ?thesis by (simp add: spec_least_def)
qed

lemma spec_axisBound_Nil: "spec_axisBound ext tg rot = [] \<longleftrightarrow> rot = 0"
  by (simp add: spec_axisBound_def)

lemma spec_bounds_nonempty:
  assumes "0 < w"
  shows "spec_bounds cw ch cx cy a w h \<noteq> []"
proof
  assume "spec_bounds cw ch cx cy a w h = []"
  then have z: "(0 - cx) * cos (- a) - (0 - cy) * sin (- a) = 0"
      "(w - cx) * cos (- a) - (0 - cy) * sin (- a) = 0"
      "(0 - cx) * sin (- a) + (0 - cy) * cos (- a) = 0"
      "(w - cx) * sin (- a) + (0 - cy) * cos (- a) = 0"
    by (simp_all add: spec_bounds_def spec_corners_def spec_cornerBounds_def spec_axisBound_Nil
        spec_rotate_def Let_def)
  have "w * cos (- a) = 0" using z(1,2) by (simp add: algebra_simps)
  moreover have "w * sin (- a) = 0" using z(3,4) by (simp add: algebra_simps)
  ultimately have "cos (- a) = 0" "sin (- a) = 0" using assms by simp_all
  then show False using sin_cos_squared_add2 [of "- a"] by simp
qed

lemma safeZoom_coincident:
  assumes "currentEyesDist (eyeGeometry d) = Num 0" and "0 < cw" and "0 < width img"
  shows "safeZoom cw ch img d = Num 0"
proof -
  obtain cx cy where g: "eyeGeometry d = \<lparr>eyeDx = Num 0, eyeDy = Num 0, currentEyesDist = Num 0,
     angle = Num 0, eyesCenter = \<lparr>px = Num cx, py = Num cy\<rparr>\<rparr>"
    using geometry_coincident [OF assms(1)] by blast
  let ?bs = "spec_bounds (real cw) (real ch) cx cy 0 (real (width img)) (real (height img))"
  have z: "safeZoom cw ch img d = jdiv (jmul (spec_least ?bs) (Num 0)) (Num (real cw))"
    by (rule safeZoom_spec) (simp_all add: g)
  have "?bs \<noteq> []" using assms(3) by (simp add: spec_bounds_nonempty)
  then show ?thesis using assms(2) by (simp add: z spec_least_def)
qed

lemma safeZoom_finite_nonneg:
  assumes "currentEyesDist (eyeGeometry d) = Num e" and "0 < cw" and "0 < width img"
  shows "\<exists>r. 0 \<le> r \<and> safeZoom cw ch img d = Num r"
proof -
  obtain lx ly rx ry where c: "getCentroid (leftEye d) = \<lparr>px = Num lx, py = Num ly\<rparr>"
      "getCentroid (rightEye d) = \<lparr>px = Num rx, py = Num ry\<rparr>"
    using geometry_finite [OF assms(1)] by blast
  note g = eyeGeometry_Num [OF c]
  define a cx cy where "a = atan2r (ry - ly) (rx - lx)" and "cx = (lx + rx) / 2"
    and "cy = (ly + ry) / 2"
  have ga: "angle (eyeGeometry d) = Num a"
    and gc: "eyesCenter (eyeGeometry d) = \<lparr>px = Num cx, py = Num cy\<rparr>"
    by (simp_all add: g a_def cx_def cy_def)
  from assms(1) g have "e = sqrt ((rx - lx) * (rx - lx) + (ry - ly) * (ry - ly))" by simp
  then have e: "0 \<le> e" by simp
  let ?bs = "spec_bounds (real cw) (real ch) cx cy a (real (width img)) (real (height img))"
  have z: "safeZoom cw ch img d = jdiv (jmul (spec_least ?bs) (Num e)) (Num (real cw))"
    by (rule safeZoom_spec [OF assms(1) ga gc])
  have ne: "?bs \<noteq> []" using assms(3) by (simp add: spec_bounds_nonempty)
  have "spec_least ?bs = PosInf \<or> (\<exists>r. 0 \<le> r \<and> spec_least ?bs = Num r)"
    by (rule spec_least_nonneg) (auto dest: spec_bounds_nonneg)
  moreover have "spec_least ?bs \<noteq> PosInf" using ne by (simp add: spec_least_def)
  ultimately obtain m where m: "0 \<le> m" "spec_least ?bs = Num m"
    by blast
  have "0 \<le> m * e / real cw" using m(1) e by simp
  then show ?thesis using assms(2) by (auto simp: z m(2))
qed

lemma spec_minimum_zero:
  assumes "\<forall>v \<in> set vs. \<exists>r. 0 \<le> r \<and> v = Num r" and "Num 0 \<in> set vs"
  shows "spec_minimum vs = Num 0"
proof -
  let ?rs = "concat (map (\<lambda>v. case v of Num r \<Rightarrow> [r] | _ \<Rightarrow> []) vs)"
  have mem: "\<And>r. r \<in> set ?rs \<longleftrightarrow> Num r \<in> set vs"
    by (auto split: jsnum.splits)
  have "NaN \<notin> set vs" "NegInf \<notin> set vs" using assms(1) by auto
  then have s: "spec_minimum vs = spec_least ?rs" by (simp add: spec_minimum_def)
  have z: "0 \<in> set ?rs" using assms(2) mem by blast
  have nn: "\<forall>r \<in> set ?rs. 0 \<le> r"
  proof
    fix r assume "r \<in> set ?rs"
    then have "Num r \<in> set vs" using mem by blast
    with assms(1) show "0 \<le> r" by auto
  qed
  have "Min (set ?rs) = 0"
  proof (rule Min_eqI)
    show "finite (set ?rs)" by (rule finite_set)
    show "\<And>y. y \<in> set ?rs \<Longrightarrow> 0 \<le> y" using nn by blast
    show "0 \<in> set ?rs" by (rule z)
  qed
  moreover have "?rs \<noteq> []" using z by (rule mem_set_not_Nil)
  ultimately show ?thesis unfolding s spec_least_def by simp
qed

lemma autoFitZoom_with_coincident_frame:
  assumes "i < length (images s)" and "detections (images s ! i) = Some d"
    and "currentEyesDist (eyeGeometry d) = Num 0"
    and "0 < canvasWidth s"
    and wf: "\<forall>it \<in> set (images s). \<forall>d'. detections it = Some d' \<longrightarrow>
           isFinite (currentEyesDist (eyeGeometry d')) \<and> 0 < width (original it)"
  shows "minSafeZoom s = Num 0" and "zoom (autoFitZoom s) = Num 0.1"
proof -
  have it: "images s ! i \<in> set (images s)" using assms(1) by simp
  have nn: "\<forall>v \<in> set (Num 1 # safeZooms s). \<exists>r. 0 \<le> r \<and> v = Num r"
  proof
    fix v assume "v \<in> set (Num 1 # safeZooms s)"
    then consider "v = Num 1" | it' d' where "it' \<in> set (images s)" "detections it' = Some d'"
      "v = safeZoom (canvasWidth s) (canvasHeight s) (original it') d'"
      by (auto simp: safeZooms_def)
    then show "\<exists>r. 0 \<le> r \<and> v = Num r"
    proof cases
      case 1
      then show ?thesis by simp
    next
      case 2
      with wf have f: "isFinite (currentEyesDist (eyeGeometry d'))" "0 < width (original it')"
        by auto
      then obtain e where "currentEyesDist (eyeGeometry d') = Num e"
        by (cases "currentEyesDist (eyeGeometry d')") simp_all
      from safeZoom_finite_nonneg [OF this assms(4) f(2)] 2(3) show ?thesis by simp
    qed
  qed
  have w: "0 < width (original (images s ! i))" using wf it assms(2) by blast
  have "safeZoom (canvasWidth s) (canvasHeight s) (original (images s ! i)) d = Num 0"
    by (rule safeZoom_coincident [OF assms(3,4) w])
  moreover have "safeZoom (canvasWidth s) (canvasHeight s) (original (images s ! i)) d
      \<in> set (safeZooms s)"
    using it assms(2) by (force simp: safeZooms_def)
  ultimately have "Num 0 \<in> set (Num 1 # safeZooms s)" by simp
  from spec_minimum_zero [OF nn this] show m: "minSafeZoom s = Num 0"
    by (simp add: minSafeZoom_spec)
  have "images s \<noteq> []" using assms(1) by auto
  then show "zoom (autoFitZoom s) = Num 0.1"
    by (simp add: zoom_autoFitZoom m clampedZoom_zero)
qed

section \<open>The example sessions evaluated\<close>

lemmas eval_geometry = eyeGeometry_def getCentroid_def jsub_def atan2r_def Let_def sqrt_square_0

lemma eyeGeometry_eyesWide:
  "eyeGeometry eyesWide = \<lparr>eyeDx = Num 200, eyeDy = Num 0, currentEyesDist = Num 200,
     angle = Num 0, eyesCenter = \<lparr>px = Num 500, py = Num 500\<rparr>\<rparr>"
  by (simp add: eyesWide_def eval_geometry)

lemma eyeGeometry_eyesNarrow:
  "eyeGeometry eyesNarrow = \<lparr>eyeDx = Num 100, eyeDy = Num 0, currentEyesDist = Num 100,
     angle = Num 0, eyesCenter = \<lparr>px = Num 500, py = Num 500\<rparr>\<rparr>"
  by (simp add: eyesNarrow_def eval_geometry)


lemma eyeGeometry_eyesCoincident:
  "eyeGeometry eyesCoincident = \<lparr>eyeDx = Num 0, eyeDy = Num 0, currentEyesDist = Num 0,
     angle = Num 0, eyesCenter = \<lparr>px = Num 500, py = Num 500\<rparr>\<rparr>"
  by (simp add: eyesCoincident_def eval_geometry)

lemma eyeGeometry_eyesOutside:
  "eyeGeometry eyesOutside = \<lparr>eyeDx = Num 300, eyeDy = Num 0, currentEyesDist = Num 300,
     angle = Num 0, eyesCenter = \<lparr>px = Num 50, py = Num 40\<rparr>\<rparr>"
  by (simp add: eyesOutside_def eval_geometry)

lemma eyeGeometry_eyesMissing:
  "eyeGeometry eyesMissing = \<lparr>eyeDx = NaN, eyeDy = NaN, currentEyesDist = NaN,
     angle = NaN, eyesCenter = \<lparr>px = NaN, py = NaN\<rparr>\<rparr>"
  by (simp add: eyesMissing_def eval_geometry)

lemmas eval_maxScale = maxScaleForThisImage_def corners_def ofDim_def cornerStep_def jsub_def
  jgt_def jmin_def Let_def

lemma safeZoom_eyesWide: "safeZoom 1000 1000 imageSquare eyesWide = Num (4 / 25)"
  by (simp add: safeZoom_def eyeGeometry_eyesWide imageSquare_def eval_maxScale)

lemma safeZoom_eyesNarrow: "safeZoom 1000 1000 imageSquare eyesNarrow = Num (2 / 25)"
  by (simp add: safeZoom_def eyeGeometry_eyesNarrow imageSquare_def eval_maxScale)

lemma safeZoom_eyesCoincident: "safeZoom 1000 1000 imageSquare eyesCoincident = Num 0"
  by (simp add: safeZoom_def eyeGeometry_eyesCoincident imageSquare_def eval_maxScale)

lemma safeZoom_eyesOutside: "safeZoom 100 100 imageSmall eyesOutside = Num 3"
  by (simp add: safeZoom_def eyeGeometry_eyesOutside imageSmall_def eval_maxScale)

lemmas eval_session = session_def frame_def frameNoFace_def

lemma minSafeZoom_sessionWide: "minSafeZoom sessionWide = Num (4 / 25)"
  by (simp add: minSafeZoom_def sessionWide_def eval_session fitStep_def safeZoom_eyesWide
      jmin_Num)

lemma minSafeZoom_sessionCoincident: "minSafeZoom sessionCoincident = Num 0"
  by (simp add: minSafeZoom_def sessionCoincident_def eval_session fitStep_def
      safeZoom_eyesCoincident jmin_Num)

lemma minSafeZoom_sessionMixed: "minSafeZoom sessionMixed = Num 0"
  by (simp add: minSafeZoom_def sessionMixed_def eval_session fitStep_def
      safeZoom_eyesCoincident safeZoom_eyesWide jmin_Num)

lemma eyeGeometry_eyesNineteen:
  "eyeGeometry eyesNineteen = \<lparr>eyeDx = Num 400, eyeDy = Num 0, currentEyesDist = Num 400,
     angle = Num 0, eyesCenter = \<lparr>px = Num 950, py = Num 400\<rparr>\<rparr>"
  by (simp add: eyesNineteen_def eval_geometry)

lemma safeZoom_eyesNineteen: "safeZoom 1900 1000 imageNineteen eyesNineteen = Num (4 / 19)"
  by (simp add: safeZoom_def eyeGeometry_eyesNineteen imageNineteen_def eval_maxScale)

lemma minSafeZoom_sessionNineteen: "minSafeZoom sessionNineteen = Num (4 / 19)"
  by (simp add: minSafeZoom_def sessionNineteen_def eval_session fitStep_def
      safeZoom_eyesNineteen jmin_Num)

lemma safeZoom_eyesMissing: "safeZoom 1000 1000 imageSquare eyesMissing = NaN"
  by (simp add: safeZoom_def eyeGeometry_eyesMissing imageSquare_def eval_maxScale)

lemma minSafeZoom_sessionMissing: "minSafeZoom sessionMissing = NaN"
  by (simp add: minSafeZoom_def sessionMissing_def eval_session fitStep_def
      safeZoom_eyesMissing jmin_def)

lemma toDouble_nineteen: "toDouble (4 / 19) = 948126237341157 / 4503599627370496"
  by (subst toDouble_eval_neg [where n = 55]) (simp_all add: roundHalfEven_def)

lemma marginScaled_nineteen: "marginScaled (4 / 19) = 20"
proof -
  have "marginScaled (4 / 19) = toDouble (toDouble (toDouble (4 / 19) * toDouble (19 / 20)) * 100)"
    by (simp add: marginScaled_def)
  also have "toDouble (4 / 19) * toDouble (19 / 20) =
      4056481920730333669984221420447 / 20282409603651670423947251286016"
    by (simp add: toDouble_nineteen toDouble_095)
  also have "toDouble (4056481920730333669984221420447 / 20282409603651670423947251286016) =
      7205759403792793 / 36028797018963968"
    by (subst toDouble_eval_neg [where n = 55]) (simp_all add: roundHalfEven_def)
  also have "7205759403792793 / 36028797018963968 * 100 =
      (180143985094819825 / 9007199254740992 :: real)" by simp
  also have "toDouble (180143985094819825 / 9007199254740992) = 20"
    by (subst toDouble_eval_neg [where n = 48]) (simp_all add: roundHalfEven_def)
  finally show ?thesis .
qed

lemma eyeGeometry_eyesLevel:
  "eyeGeometry eyesLevel = \<lparr>eyeDx = Num 100, eyeDy = Num 0, currentEyesDist = Num 100,
     angle = Num 0, eyesCenter = \<lparr>px = Num 500, py = Num 211\<rparr>\<rparr>"
  by (simp add: eyesLevel_def eval_geometry)

lemma toDouble_quarter: "toDouble (1 / 4) = 1 / 4"
  by (subst toDouble_eval_neg [where n = 54]) (simp_all add: roundHalfEven_def)

lemma toDouble_250: "toDouble 250 = 250"
  by (subst toDouble_eval_neg [where n = 45]) (simp_all add: roundHalfEven_def)

lemma toDouble_100: "toDouble 100 = 100"
  by (subst toDouble_eval_neg [where n = 46]) (simp_all add: roundHalfEven_def)

lemma toDouble_five_halves: "toDouble (5 / 2) = 5 / 2"
  by (subst toDouble_eval_neg [where n = 51]) (simp_all add: roundHalfEven_def)

lemma toDouble_500: "toDouble 500 = 500"
  by (subst toDouble_eval_neg [where n = 44]) (simp_all add: roundHalfEven_def)

lemma toDouble_211: "toDouble 211 = 211"
  by (subst toDouble_eval_neg [where n = 45]) (simp_all add: roundHalfEven_def)

lemma toDouble_1250: "toDouble 1250 = 1250"
  by (subst toDouble_eval_neg [where n = 42]) (simp_all add: roundHalfEven_def)

lemma toDouble_750: "toDouble 750 = 750"
  by (subst toDouble_eval_neg [where n = 43]) (simp_all add: roundHalfEven_def)

lemma toDouble_1055_2: "toDouble (1055 / 2) = 1055 / 2"
  by (subst toDouble_eval_neg [where n = 43]) (simp_all add: roundHalfEven_def)

lemma toDouble_two_fifths: "toDouble (2 / 5) = 3602879701896397 / 9007199254740992"
  by (subst toDouble_eval_neg [where n = 54]) (simp_all add: roundHalfEven_def)

lemma toDouble_target:
  "toDouble (2165330700839734597 / 9007199254740992) = 8458323050155213 / 35184372088832"
  by (subst toDouble_eval_neg [where n = 45]) (simp_all add: roundHalfEven_def)

lemma toDouble_offset:
  "toDouble (10101433226703667 / 35184372088832) = 2525358306675917 / 8796093022208"
  by (subst toDouble_eval_neg [where n = 44]) (simp_all add: roundHalfEven_def)

lemma toDouble_image:
  "toDouble (2114580762538803 / 8796093022208) = 2114580762538803 / 8796093022208"
  by (subst toDouble_eval_neg [where n = 45]) (simp_all add: roundHalfEven_def)

lemmas eval_level = toDouble_zero toDouble_one toDouble_minus toDouble_quarter toDouble_250
  toDouble_100 toDouble_five_halves toDouble_500 toDouble_211 toDouble_1250 toDouble_750
  toDouble_1055_2 toDouble_two_fifths toDouble_target toDouble_offset toDouble_image

lemma targetY_level:
  "dmul (ofDim 601) (Num (toDouble 0.4)) = Num (8458323050155213 / 35184372088832)"
  by (simp add: dmul_Num ofDim_def eval_level)

lemma alignTransformD_eyesLevel:
  "transformPointD (alignTransformD cosRounded sinRounded 1000 601 (Num 0.25) eyesLevel)
     (pointD (eyesCenter (eyeGeometry eyesLevel))) =
   \<lparr>px = Num 500, py = Num (2114580762538803 / 8796093022208)\<rparr>"
proof -
  have g: "eyeGeometry eyesLevel = \<lparr>eyeDx = Num 100, eyeDy = Num 0, currentEyesDist = Num 100,
     angle = Num 0, eyesCenter = \<lparr>px = Num 500, py = Num 211\<rparr>\<rparr>"
    by (rule eyeGeometry_eyesLevel)
  have pt: "pointD (eyesCenter (eyeGeometry eyesLevel)) =
      \<lparr>px = Num (toDouble 500), py = Num (toDouble 211)\<rparr>"
    by (simp add: g pointD_def)
  have pos: "(0::real) < 100" by simp
  note m = alignTransformD_form [OF g pos, of cosRounded sinRounded 1000 601 "0.25"]
  show ?thesis
    unfolding m pt transformPointD_translate_back
    by (simp add: cosRounded_def sinRounded_def eval_level)
qed

section \<open>The auto-fit solver\<close>

text \<open>
  C1, as the code has it. For an image with detections whose geometry is finite
  (eye distance \<open>e\<close>, angle \<open>a\<close>, eyes-center \<open>(cx, cy)\<close>), \<^verbatim>\<open>maxScaleForThisImage\<close>
  is the least of the bounds of its four corners on the two axes, each corner
  rotated by \<open>-a\<close> about the eyes-center: \<open>(extent - target) / rot\<close> for \<open>rot > 0\<close>,
  \<open>-target / rot\<close> for \<open>rot < 0\<close>, none for \<open>rot = 0\<close> (and \<^verbatim>\<open>Infinity\<close> when no corner
  gives a bound). Its safe zoom is that scale times \<open>e\<close> over the canvas width, and
  it is one of the safe zooms the loop takes the minimum of. The global
  \<^verbatim>\<open>minSafeZoom\<close> is the minimum of its initial value \<open>1.0\<close> and the safe zooms of
  all images with detections: it never exceeds \<open>1.0\<close>.
\<close>

theorem autoFit_solver_bounds:
  assumes "it \<in> set (images s)" and "detections it = Some d"
    and "currentEyesDist (eyeGeometry d) = Num e"
    and "angle (eyeGeometry d) = Num a"
    and "eyesCenter (eyeGeometry d) = \<lparr>px = Num cx, py = Num cy\<rparr>"
  shows "maxScaleForThisImage (canvasWidth s) (canvasHeight s) (original it) d =
           spec_least (spec_bounds (real (canvasWidth s)) (real (canvasHeight s)) cx cy a
             (real (width (original it))) (real (height (original it)))) \<and>
         safeZoom (canvasWidth s) (canvasHeight s) (original it) d =
           jdiv (jmul (maxScaleForThisImage (canvasWidth s) (canvasHeight s) (original it) d)
                  (Num e)) (Num (real (canvasWidth s))) \<and>
         safeZoom (canvasWidth s) (canvasHeight s) (original it) d \<in> set (safeZooms s) \<and>
         minSafeZoom s = spec_minimum (Num 1.0 # safeZooms s)"
proof -
  have "safeZoom (canvasWidth s) (canvasHeight s) (original it) d \<in> set (safeZooms s)"
    using assms(1,2) by (force simp: safeZooms_def)
  then show ?thesis
    using maxScaleForThisImage_spec [OF assms(4,5)] assms(3) minSafeZoom_spec [of s]
    by (simp add: safeZoom_def ofDim_def)
qed

theorem autoFit_solver_bounds_witness:
  "frame imageSquare eyesWide \<in> set (images sessionWide) \<and>
   detections (frame imageSquare eyesWide) = Some eyesWide \<and>
   currentEyesDist (eyeGeometry eyesWide) = Num 200 \<and>
   angle (eyeGeometry eyesWide) = Num 0 \<and>
   eyesCenter (eyeGeometry eyesWide) = \<lparr>px = Num 500, py = Num 500\<rparr> \<and>
   maxScaleForThisImage 1000 1000 imageSquare eyesWide =
     spec_least (spec_bounds 1000 1000 500 500 0 1000 1000) \<and>
   safeZoom 1000 1000 imageSquare eyesWide =
     jdiv (jmul (maxScaleForThisImage 1000 1000 imageSquare eyesWide) (Num 200)) (Num 1000) \<and>
   minSafeZoom sessionWide = spec_minimum (Num 1.0 # safeZooms sessionWide)"
  using autoFit_solver_bounds [of "frame imageSquare eyesWide" sessionWide eyesWide 200 0 500 500]
  by (simp add: sessionWide_def eval_session eyeGeometry_eyesWide imageSquare_def)

text \<open>
  The global value is not the bare minimum over the images: landmarks 300 apart on
  an image and canvas 100 wide give the safe zoom 3, and \<^verbatim>\<open>minSafeZoom\<close> is 1.
\<close>

theorem autoFit_global_minimum_counterexample:
  "safeZooms sessionOutside = [Num 3] \<and>
   spec_minimum (safeZooms sessionOutside) = Num 3 \<and>
   minSafeZoom sessionOutside = Num 1 \<and>
   minSafeZoom sessionOutside \<noteq> spec_minimum (safeZooms sessionOutside)"
  by (simp add: safeZooms_def minSafeZoom_def sessionOutside_def eval_session fitStep_def
      safeZoom_eyesOutside jmin_Num spec_minimum_def spec_least_def)

section \<open>The placement of the eyes\<close>

text \<open>
  C2, as the code has it. For a frame drawn aligned whose eye distance is finite and
  positive, at any finite zoom (so at every zoom in \<open>(0, 1]\<close>): in exact arithmetic
  the matrix \<^verbatim>\<open>renderFrame\<close> draws under sends the eyes-center exactly to
  \<open>(canvasWidth * 0.5, canvasHeight * 0.4)\<close>; composed in doubles, with whatever
  cosine and sine the platform supplies, it sends the eyes-center to a point that
  misses the target of doubles, on each axis, by at most \<open>(\<bar>t\<bar> + \<bar>l\<bar>) / 2 ^ 51\<close>, for
  the target \<open>t\<close> and the linear part \<open>l\<close> of the image on that axis.
\<close>

theorem renderFrame_eyesCenter_near_target:
  assumes "i < length (images s)" and "detections (images s ! i) = Some d" and "alignEyes s"
    and "zoom s = Num z"
    and "currentEyesDist (eyeGeometry d) = Num e" and "0 < e"
  shows "(\<exists>m. canvasContent (renderFrame i s) = Some (Aligned (original (images s ! i)) m) \<and>
            transformPoint m (eyesCenter (eyeGeometry d)) =
              \<lparr>px = Num (real (canvasWidth s) * 0.5), py = Num (real (canvasHeight s) * 0.4)\<rparr>) \<and>
         (\<exists>X Y A B.
            transformPointD (alignTransformD cosD sinD (canvasWidth s) (canvasHeight s) (zoom s) d)
              (pointD (eyesCenter (eyeGeometry d))) = \<lparr>px = Num X, py = Num Y\<rparr> \<and>
            linearPartD (alignTransformD cosD sinD (canvasWidth s) (canvasHeight s) (zoom s) d)
              (pointD (eyesCenter (eyeGeometry d))) = \<lparr>px = Num A, py = Num B\<rparr> \<and>
            \<bar>X - toDouble (real (canvasWidth s) * 0.5)\<bar> \<le>
              (\<bar>toDouble (real (canvasWidth s) * 0.5)\<bar> + \<bar>A\<bar>) / 2 ^ 51 \<and>
            \<bar>Y - toDouble (real (canvasHeight s) * toDouble 0.4)\<bar> \<le>
              (\<bar>toDouble (real (canvasHeight s) * toDouble 0.4)\<bar> + \<bar>B\<bar>) / 2 ^ 51)"
proof (rule conjI)
  show "\<exists>m. canvasContent (renderFrame i s) = Some (Aligned (original (images s ! i)) m) \<and>
            transformPoint m (eyesCenter (eyeGeometry d)) =
              \<lparr>px = Num (real (canvasWidth s) * 0.5), py = Num (real (canvasHeight s) * 0.4)\<rparr>"
    using renderFrame_aligned [OF assms(1,2,3)] alignTransform_eyesCenter [OF assms(5,6)] assms(4)
    by simp
  show "\<exists>X Y A B.
            transformPointD (alignTransformD cosD sinD (canvasWidth s) (canvasHeight s) (zoom s) d)
              (pointD (eyesCenter (eyeGeometry d))) = \<lparr>px = Num X, py = Num Y\<rparr> \<and>
            linearPartD (alignTransformD cosD sinD (canvasWidth s) (canvasHeight s) (zoom s) d)
              (pointD (eyesCenter (eyeGeometry d))) = \<lparr>px = Num A, py = Num B\<rparr> \<and>
            \<bar>X - toDouble (real (canvasWidth s) * 0.5)\<bar> \<le>
              (\<bar>toDouble (real (canvasWidth s) * 0.5)\<bar> + \<bar>A\<bar>) / 2 ^ 51 \<and>
            \<bar>Y - toDouble (real (canvasHeight s) * toDouble 0.4)\<bar> \<le>
              (\<bar>toDouble (real (canvasHeight s) * toDouble 0.4)\<bar> + \<bar>B\<bar>) / 2 ^ 51"
    unfolding assms(4) by (rule alignTransformD_eyesCenter [OF assms(5,6)])
qed

theorem renderFrame_eyesCenter_near_target_witness:
  "0 < length (images sessionScenarioA) \<and>
   detections (images sessionScenarioA ! 0) = Some eyesWide \<and>
   alignEyes sessionScenarioA \<and> zoom sessionScenarioA = Num 0.25 \<and>
   currentEyesDist (eyeGeometry eyesWide) = Num 200 \<and>
   (\<exists>m. canvasContent (renderFrame 0 sessionScenarioA) = Some (Aligned imageSquare m) \<and>
        transformPoint m \<lparr>px = Num 500, py = Num 500\<rparr> = \<lparr>px = Num 500, py = Num 400\<rparr>) \<and>
   (\<exists>X Y A B.
      transformPointD (alignTransformD cosRounded sinRounded 1000 1000 (Num 0.25) eyesWide)
        \<lparr>px = Num 500, py = Num 500\<rparr> = \<lparr>px = Num X, py = Num Y\<rparr> \<and>
      linearPartD (alignTransformD cosRounded sinRounded 1000 1000 (Num 0.25) eyesWide)
        \<lparr>px = Num 500, py = Num 500\<rparr> = \<lparr>px = Num A, py = Num B\<rparr> \<and>
      \<bar>X - 500\<bar> \<le> (500 + \<bar>A\<bar>) / 2 ^ 51 \<and>
      \<bar>Y - toDouble (1000 * toDouble 0.4)\<bar> \<le> (\<bar>toDouble (1000 * toDouble 0.4)\<bar> + \<bar>B\<bar>) / 2 ^ 51)"
  using renderFrame_eyesCenter_near_target
    [of 0 sessionScenarioA eyesWide "0.25" 200 cosRounded sinRounded]
  by (simp add: sessionScenarioA_def eval_session eyeGeometry_eyesWide pointD_def toDouble_500)

text \<open>
  Level eyes 100 apart with the center \<open>(500, 211)\<close>, on a canvas 1000 by 601 at the
  zoom 0.25: the scale is 2.5, the target height is the double \<^verbatim>\<open>601 * 0.4\<close>, and in
  doubles the eyes-center is drawn below it, at \<^verbatim>\<open>240.39999999999998\<close> instead of
  \<^verbatim>\<open>240.4\<close>.
\<close>

theorem eyesCenter_rounding_counterexample:
  "currentEyesDist (eyeGeometry eyesLevel) = Num 100 \<and>
   eyesCenter (eyeGeometry eyesLevel) = \<lparr>px = Num 500, py = Num 211\<rparr> \<and>
   pointD (eyesCenter (eyeGeometry eyesLevel)) = \<lparr>px = Num 500, py = Num 211\<rparr> \<and>
   dmul (ofDim 1000) (Num 0.5) = Num 500 \<and>
   dmul (ofDim 601) (Num (toDouble 0.4)) = Num (8458323050155213 / 35184372088832) \<and>
   transformPointD (alignTransformD cosRounded sinRounded 1000 601 (Num 0.25) eyesLevel)
     (pointD (eyesCenter (eyeGeometry eyesLevel))) =
     \<lparr>px = Num 500, py = Num (2114580762538803 / 8796093022208)\<rparr> \<and>
   (2114580762538803 / 8796093022208 :: real) < 8458323050155213 / 35184372088832"
proof -
  have "pointD (eyesCenter (eyeGeometry eyesLevel)) = \<lparr>px = Num 500, py = Num 211\<rparr>"
    by (simp add: pointD_def eyeGeometry_eyesLevel toDouble_500 toDouble_211)
  moreover have "dmul (ofDim 1000) (Num 0.5) = Num 500"
    by (simp add: dmul_Num ofDim_def toDouble_500)
  moreover have "(2114580762538803 / 8796093022208 :: real) < 8458323050155213 / 35184372088832"
    by simp
  ultimately show ?thesis
    using targetY_level alignTransformD_eyesLevel by (simp add: eyeGeometry_eyesLevel)
qed



section \<open>Coincident eyes\<close>

text \<open>
  C4, as the code has it. No threshold on the eye distance exists and nothing fails.
  For a frame with detections whose eye distance is 0, in a session that aligns eyes
  at a positive zoom on a canvas of positive width: \<^verbatim>\<open>scale\<close> is
  \<^verbatim>\<open>desiredEyesDist / 0 = Infinity\<close>; the frame is drawn by the aligned branch, not
  letterboxed, and since \<^verbatim>\<open>ctx.scale\<close> ignores an infinite argument its matrix is the
  finite translation of the eyes-center to the target; the frame is not skipped by
  auto-fit: its safe zoom is 0 (for an image of positive width), which enters
  \<^verbatim>\<open>minSafeZoom\<close>, and when every image with detections has a finite eye distance
  and a positive width the solver ends at the lower limit 0.1.
\<close>

theorem coincident_eyes_unguarded:
  assumes "i < length (images s)" and "detections (images s ! i) = Some d" and "alignEyes s"
    and "zoom s = Num z" and "0 < z" and "0 < canvasWidth s"
    and "0 < width (original (images s ! i))"
    and "currentEyesDist (eyeGeometry d) = Num 0"
  shows "alignScale (canvasWidth s) (zoom s) d = PosInf \<and>
    (\<exists>cx cy. eyesCenter (eyeGeometry d) = \<lparr>px = Num cx, py = Num cy\<rparr> \<and>
       canvasContent (renderFrame i s) =
         Some (Aligned (original (images s ! i))
           \<lparr>ma = Num 1, mb = Num 0, mc = Num 0, md = Num 1,
            me = Num (real (canvasWidth s) * 0.5 - cx),
            mf = Num (real (canvasHeight s) * 0.4 - cy)\<rparr>)) \<and>
    safeZoom (canvasWidth s) (canvasHeight s) (original (images s ! i)) d = Num 0 \<and>
    fitStep (canvasWidth s) (canvasHeight s) acc (images s ! i) = jmin acc (Num 0) \<and>
    ((\<forall>it \<in> set (images s). \<forall>d'. detections it = Some d' \<longrightarrow>
        isFinite (currentEyesDist (eyeGeometry d')) \<and> 0 < width (original it)) \<longrightarrow>
     minSafeZoom s = Num 0 \<and> zoom (autoFitZoom s) = Num 0.1)"
proof -
  obtain cx cy where g: "eyeGeometry d = \<lparr>eyeDx = Num 0, eyeDy = Num 0, currentEyesDist = Num 0,
     angle = Num 0, eyesCenter = \<lparr>px = Num cx, py = Num cy\<rparr>\<rparr>"
    using geometry_coincident [OF assms(8)] by blast
  note t = alignTransform_coincident [OF g assms(6,5)]
  note z = safeZoom_coincident [OF assms(8,6,7)]
  have "eyesCenter (eyeGeometry d) = \<lparr>px = Num cx, py = Num cy\<rparr>" by (simp add: g)
  moreover have "canvasContent (renderFrame i s) =
         Some (Aligned (original (images s ! i))
           \<lparr>ma = Num 1, mb = Num 0, mc = Num 0, md = Num 1,
            me = Num (real (canvasWidth s) * 0.5 - cx),
            mf = Num (real (canvasHeight s) * 0.4 - cy)\<rparr>)"
    using renderFrame_aligned [OF assms(1,2,3)] t(2) [of "canvasHeight s"] assms(4) by simp
  moreover have "fitStep (canvasWidth s) (canvasHeight s) acc (images s ! i) = jmin acc (Num 0)"
    by (simp add: fitStep_def assms(2) z)
  moreover have "(\<forall>it \<in> set (images s). \<forall>d'. detections it = Some d' \<longrightarrow>
        isFinite (currentEyesDist (eyeGeometry d')) \<and> 0 < width (original it)) \<longrightarrow>
     minSafeZoom s = Num 0 \<and> zoom (autoFitZoom s) = Num 0.1"
    using autoFitZoom_with_coincident_frame [OF assms(1,2,8,6)] by blast
  ultimately show ?thesis using t(1) z assms(4) by auto
qed

theorem coincident_eyes_unguarded_witness:
  "1 < length (images sessionMixed) \<and>
   detections (images sessionMixed ! 1) = Some eyesCoincident \<and>
   alignEyes sessionMixed \<and> zoom sessionMixed = Num 0.25 \<and>
   currentEyesDist (eyeGeometry eyesCoincident) = Num 0 \<and>
   alignScale 1000 (Num 0.25) eyesCoincident = PosInf \<and>
   canvasContent (renderFrame 1 sessionMixed) =
     Some (Aligned imageSquare
       \<lparr>ma = Num 1, mb = Num 0, mc = Num 0, md = Num 1, me = Num 0, mf = Num (- 100)\<rparr>) \<and>
   safeZoom 1000 1000 imageSquare eyesCoincident = Num 0 \<and>
   fitStep 1000 1000 (Num 0.16) (images sessionMixed ! 1) = Num 0 \<and>
   minSafeZoom sessionMixed = Num 0 \<and>
   zoom (autoFitZoom sessionMixed) = Num 0.1"
  using coincident_eyes_unguarded [of 1 sessionMixed eyesCoincident "0.25" "Num 0.16"]
  by (simp add: sessionMixed_def eval_session eyeGeometry_eyesCoincident eyeGeometry_eyesWide
      imageSquare_def jmin_Num)

text \<open>
  A session of one image whose eyes coincide: the frame is drawn aligned, not
  letterboxed, its safe zoom 0 is the only one the solver has, and the zoom ends
  at 0.1.
\<close>

theorem coincident_eyes_counterexample:
  "detections (images sessionCoincident ! 0) = Some eyesCoincident \<and>
   currentEyesDist (eyeGeometry eyesCoincident) = Num 0 \<and>
   alignScale 1000 (Num 0.25) eyesCoincident = PosInf \<and>
   canvasContent (renderFrame 0 sessionCoincident) =
     Some (Aligned imageSquare
       \<lparr>ma = Num 1, mb = Num 0, mc = Num 0, md = Num 1, me = Num 0, mf = Num (- 100)\<rparr>) \<and>
   canvasContent (renderFrame 0 sessionCoincident) \<noteq> Some (letterbox 1000 1000 imageSquare) \<and>
   safeZooms sessionCoincident = [Num 0] \<and>
   minSafeZoom sessionCoincident = Num 0 \<and>
   zoom (autoFitZoom sessionCoincident) = Num 0.1"
proof -
  have "images sessionCoincident \<noteq> []" by (simp add: sessionCoincident_def eval_session)
  then have "zoom (autoFitZoom sessionCoincident) = Num 0.1"
    by (simp add: zoom_autoFitZoom minSafeZoom_sessionCoincident clampedZoom_zero)
  moreover have "safeZooms sessionCoincident = [Num 0]"
    by (simp add: safeZooms_def sessionCoincident_def eval_session safeZoom_eyesCoincident)
  moreover have "canvasContent (renderFrame 0 sessionCoincident) =
     Some (Aligned imageSquare
       \<lparr>ma = Num 1, mb = Num 0, mc = Num 0, md = Num 1, me = Num 0, mf = Num (- 100)\<rparr>)"
    by (simp add: eyeGeometry_eyesCoincident renderFrame_def alignTransform_def alignScale_def
      Let_def ofDim_def identityMatrix_def ctxTranslate_def ctxScale_def ctxRotate_def
      jsub_def sessionCoincident_def eval_session)
  moreover have "alignScale 1000 (Num 0.25) eyesCoincident = PosInf"
    by (simp add: alignScale_def eyeGeometry_eyesCoincident ofDim_def)
  moreover have "detections (images sessionCoincident ! 0) = Some eyesCoincident"
    by (simp add: sessionCoincident_def eval_session)
  ultimately show ?thesis
    by (simp add: minSafeZoom_sessionCoincident eyeGeometry_eyesCoincident letterbox_def Let_def)
qed

section \<open>The final step of the solver\<close>

text \<open>
  C5, as the code has it. Whenever the solver runs (the session has images): for a
  finite global safe zoom \<open>z\<close> the zoom it stores is the clamp to \<open>[0.1, 1.0]\<close> of the
  floor, divided by 100, of the product \<^verbatim>\<open>z * 0.95 * 100\<close> as doubles compute it; that
  product is within \<open>95 * \<bar>z\<bar> / 2 ^ 50\<close> of the exact one, and the stored zoom is the
  exact margin, floor to two decimal places and clamp of \<open>z\<close>, in this order, whenever
  no integer lies that close to the exact product. For an infinite global safe zoom
  the clamp gives 1.0 or 0.1. For NaN nothing is clamped: the stored zoom is NaN.
\<close>

theorem autoFitZoom_final_step:
  assumes "images s \<noteq> []"
  shows "(\<forall>z. minSafeZoom s = Num z \<longrightarrow>
            zoom (autoFitZoom s) = Num (spec_clamp (of_int \<lfloor>marginScaled z\<rfloor> / 100)) \<and>
            \<bar>marginScaled z - spec_margin z * 100\<bar> \<le> 95 * \<bar>z\<bar> / 2 ^ 50 \<and>
            (\<lfloor>spec_margin z * 100 - 95 * \<bar>z\<bar> / 2 ^ 50\<rfloor> =
               \<lfloor>spec_margin z * 100 + 95 * \<bar>z\<bar> / 2 ^ 50\<rfloor> \<longrightarrow>
             zoom (autoFitZoom s) = Num (spec_clamp (spec_floor2 (spec_margin z))))) \<and>
         (minSafeZoom s = PosInf \<longrightarrow> zoom (autoFitZoom s) = Num 1.0) \<and>
         (minSafeZoom s = NegInf \<longrightarrow> zoom (autoFitZoom s) = Num 0.1) \<and>
         (minSafeZoom s = NaN \<longrightarrow> zoom (autoFitZoom s) = NaN)"
proof -
  note z = zoom_autoFitZoom [OF assms]
  have "zoom (autoFitZoom s) = Num (spec_clamp (of_int \<lfloor>marginScaled z\<rfloor> / 100))"
    if "minSafeZoom s = Num z" for z
    using that by (simp only: z clampedZoom_Num)
  moreover have "\<bar>marginScaled z - spec_margin z * 100\<bar> \<le> 95 * \<bar>z\<bar> / 2 ^ 50" for z
    using marginScaled_error [of z] by (simp add: spec_margin_def)
  moreover have "zoom (autoFitZoom s) = Num (spec_clamp (spec_floor2 (spec_margin z)))"
    if "minSafeZoom s = Num z"
      and "\<lfloor>spec_margin z * 100 - 95 * \<bar>z\<bar> / 2 ^ 50\<rfloor> =
               \<lfloor>spec_margin z * 100 + 95 * \<bar>z\<bar> / 2 ^ 50\<rfloor>" for z
    using that(1) marginScaled_agrees [OF that(2)] by (simp only: z clampedZoom_Num)
  moreover have "minSafeZoom s = PosInf \<longrightarrow> zoom (autoFitZoom s) = Num 1.0"
    by (simp add: z clampedZoom_PosInf)
  moreover have "minSafeZoom s = NegInf \<longrightarrow> zoom (autoFitZoom s) = Num 0.1"
    by (simp add: z clampedZoom_NegInf)
  moreover have "minSafeZoom s = NaN \<longrightarrow> zoom (autoFitZoom s) = NaN"
    by (simp add: z clampedZoom_NaN)
  ultimately show ?thesis by blast
qed

theorem autoFitZoom_final_step_witness:
  "images sessionWide \<noteq> [] \<and> minSafeZoom sessionWide = Num 0.16 \<and>
   zoom (autoFitZoom sessionWide) = Num 0.15"
proof -
  have i: "images sessionWide \<noteq> []" by (simp add: sessionWide_def eval_session)
  have f: "\<lfloor>spec_margin (4 / 25) * 100 - 95 * \<bar>4 / 25\<bar> / 2 ^ 50\<rfloor> =
      \<lfloor>spec_margin (4 / 25) * 100 + 95 * \<bar>4 / 25\<bar> / 2 ^ 50\<rfloor>"
    by (simp add: spec_margin_def)
  from autoFitZoom_final_step [OF i] minSafeZoom_sessionWide f
  have "zoom (autoFitZoom sessionWide) = Num (spec_clamp (spec_floor2 (spec_margin (4 / 25))))"
    by blast
  then show ?thesis
    using i by (simp add: minSafeZoom_sessionWide spec_clamp_def spec_floor2_def spec_margin_def)
qed

text \<open>
  An empty eye cluster makes the global safe zoom NaN, and the stored zoom is NaN,
  not a value of \<open>[0.1, 1.0]\<close>. And a frame whose safe zoom is \<open>400 / 1900\<close>, which
  the program holds as the double \<^verbatim>\<open>0.21052631578947367\<close> just below it: the product
  in doubles rounds up to 20 and the stored zoom is 0.2, where the margin, the floor
  and the clamp of that double give 0.19.
\<close>

theorem autoFitZoom_final_step_counterexample:
  "minSafeZoom sessionMissing = NaN \<and> zoom (autoFitZoom sessionMissing) = NaN \<and>
   minSafeZoom sessionNineteen = Num (4 / 19) \<and>
   toDouble (4 / 19) = 948126237341157 / 4503599627370496 \<and>
   zoom (autoFitZoom sessionNineteen) = Num 0.2 \<and>
   spec_clamp (spec_floor2 (spec_margin (948126237341157 / 4503599627370496))) = 0.19"
proof -
  have "images sessionMissing \<noteq> []" by (simp add: sessionMissing_def eval_session)
  then have "zoom (autoFitZoom sessionMissing) = NaN"
    by (simp add: zoom_autoFitZoom minSafeZoom_sessionMissing clampedZoom_NaN)
  moreover have "images sessionNineteen \<noteq> []" by (simp add: sessionNineteen_def eval_session)
  then have "zoom (autoFitZoom sessionNineteen) = Num 0.2"
    by (simp add: zoom_autoFitZoom minSafeZoom_sessionNineteen clampedZoom_Num
        marginScaled_nineteen spec_clamp_def)
  moreover have "spec_clamp (spec_floor2 (spec_margin (948126237341157 / 4503599627370496))) = 0.19"
    by (simp add: spec_clamp_def spec_floor2_def spec_margin_def)
  ultimately show ?thesis
    by (simp add: minSafeZoom_sessionMissing minSafeZoom_sessionNineteen toDouble_nineteen)
qed

text \<open>
  C6, as the code has it. When the session has images and none has detections,
  \<^verbatim>\<open>minSafeZoom\<close> keeps its initial value 1.0 and the solver stores the zoom 0.95:
  the margin is applied to the maximum as to any other value.
\<close>

theorem autoFitZoom_no_geometry:
  assumes "images s \<noteq> []" and "\<forall>it \<in> set (images s). detections it = None"
  shows "minSafeZoom s = Num 1 \<and> zoom (autoFitZoom s) = Num 0.95"
proof -
  have m: "minSafeZoom s = Num 1"
    using foldl_fitStep_no_detections [OF assms(2)] by (simp add: minSafeZoom_def)
  show ?thesis
    using m zoom_autoFitZoom [OF assms(1)] by (simp add: clampedZoom_one)
qed

theorem autoFitZoom_no_geometry_witness:
  "images sessionNoFaces \<noteq> [] \<and> minSafeZoom sessionNoFaces = Num 1 \<and>
   zoom (autoFitZoom sessionNoFaces) = Num 0.95"
  using autoFitZoom_no_geometry [of sessionNoFaces]
  by (simp add: sessionNoFaces_def eval_session)

text \<open>
  One image without detections: the stored zoom is 0.95, not 1.0.
\<close>

theorem autoFitZoom_no_geometry_counterexample:
  "images sessionNoFace \<noteq> [] \<and>
   map detections (images sessionNoFace) = [None] \<and>
   zoom (autoFitZoom sessionNoFace) = Num 0.95 \<and>
   zoom (autoFitZoom sessionNoFace) \<noteq> Num 1.0"
  by (simp add: zoom_autoFitZoom clampedZoom_one minSafeZoom_def fitStep_def
      sessionNoFace_def eval_session)

text \<open>
  C7, as the code has it. When the global safe zoom is zero or negative, nothing
  fails: the solver stores the lower limit 0.1 as the new zoom and sets the slider
  to 10.
\<close>

theorem autoFitZoom_nonpositive_bound:
  assumes "images s \<noteq> []" and "jle (minSafeZoom s) (Num 0)"
  shows "zoom (autoFitZoom s) = Num 0.1 \<and> zoomRangeValue (autoFitZoom s) = Num 10"
  using zoom_autoFitZoom [OF assms(1)] zoomRangeValue_autoFitZoom [OF assms(1)]
    clampedZoom_nonpos [OF assms(2)]
  by simp

theorem autoFitZoom_nonpositive_bound_witness:
  "images sessionCoincident \<noteq> [] \<and> jle (minSafeZoom sessionCoincident) (Num 0) \<and>
   zoom (autoFitZoom sessionCoincident) = Num 0.1 \<and>
   zoomRangeValue (autoFitZoom sessionCoincident) = Num 10"
  using autoFitZoom_nonpositive_bound [of sessionCoincident]
  by (simp add: minSafeZoom_sessionCoincident jle_def)
     (simp add: sessionCoincident_def eval_session)

text \<open>
  A session at zoom 0.25 with a usable frame and a frame of coincident eyes: the
  global safe zoom is 0 and the zoom changes to 0.1.
\<close>

theorem autoFitZoom_nonpositive_bound_counterexample:
  "minSafeZoom sessionMixed = Num 0 \<and> zoom sessionMixed = Num 0.25 \<and>
   zoom (autoFitZoom sessionMixed) = Num 0.1 \<and>
   zoom (autoFitZoom sessionMixed) \<noteq> zoom sessionMixed"
proof -
  have "images sessionMixed \<noteq> []" by (simp add: sessionMixed_def eval_session)
  then have "zoom (autoFitZoom sessionMixed) = Num 0.1"
    by (simp add: zoom_autoFitZoom minSafeZoom_sessionMixed clampedZoom_zero)
  moreover have "zoom sessionMixed = Num 0.25" by (simp add: sessionMixed_def eval_session)
  ultimately show ?thesis by (simp add: minSafeZoom_sessionMixed)
qed

section \<open>Monotonicity in the eye distance\<close>

text \<open>
  C8, as the code has it. With the image, the canvas, the angle and the eyes-center
  fixed and a positive canvas width, a frame with the smaller (positive) eye
  distance has the smaller or equal safe zoom: decreasing the eye distance never
  increases the safe zoom, which is proportional to it.
\<close>

theorem safeZoom_mono_eyeDistance:
  assumes "currentEyesDist (eyeGeometry d1) = Num e1"
    and "currentEyesDist (eyeGeometry d2) = Num e2"
    and "angle (eyeGeometry d1) = angle (eyeGeometry d2)"
    and "eyesCenter (eyeGeometry d1) = eyesCenter (eyeGeometry d2)"
    and "0 < e1" and "e1 \<le> e2" and "0 < cw"
  shows "jle (safeZoom cw ch img d1) (safeZoom cw ch img d2)"
proof -
  obtain lx ly rx ry where c: "getCentroid (leftEye d2) = \<lparr>px = Num lx, py = Num ly\<rparr>"
      "getCentroid (rightEye d2) = \<lparr>px = Num rx, py = Num ry\<rparr>"
    using geometry_finite [OF assms(2)] by blast
  note g = eyeGeometry_Num [OF c]
  define a cx cy where "a = atan2r (ry - ly) (rx - lx)" and "cx = (lx + rx) / 2"
    and "cy = (ly + ry) / 2"
  have a2: "angle (eyeGeometry d2) = Num a"
    and c2: "eyesCenter (eyeGeometry d2) = \<lparr>px = Num cx, py = Num cy\<rparr>"
    by (simp_all add: g a_def cx_def cy_def)
  have a1: "angle (eyeGeometry d1) = Num a"
    and c1: "eyesCenter (eyeGeometry d1) = \<lparr>px = Num cx, py = Num cy\<rparr>"
    using assms(3,4) a2 c2 by simp_all
  let ?m = "spec_least (spec_bounds (real cw) (real ch) cx cy a (real (width img)) (real (height img)))"
  have z1: "safeZoom cw ch img d1 = jdiv (jmul ?m (Num e1)) (Num (real cw))"
    by (rule safeZoom_spec [OF assms(1) a1 c1])
  have z2: "safeZoom cw ch img d2 = jdiv (jmul ?m (Num e2)) (Num (real cw))"
    by (rule safeZoom_spec [OF assms(2) a2 c2])
  have "?m = PosInf \<or> (\<exists>r. 0 \<le> r \<and> ?m = Num r)"
    by (rule spec_least_nonneg) (auto dest: spec_bounds_nonneg)
  then show ?thesis
  proof
    assume "?m = PosInf"
    then show ?thesis using assms(5,6,7) by (simp add: z1 z2 jle_def)
  next
    assume "\<exists>r. 0 \<le> r \<and> ?m = Num r"
    then obtain r where r: "0 \<le> r" "?m = Num r" by blast
    have "r * e1 / real cw \<le> r * e2 / real cw"
      using r(1) assms(6,7) by (simp add: divide_right_mono mult_left_mono)
    then show ?thesis using assms(7) by (auto simp: z1 z2 r(2) jle_def)
  qed
qed

theorem safeZoom_mono_eyeDistance_witness:
  "currentEyesDist (eyeGeometry eyesNarrow) = Num 100 \<and>
   currentEyesDist (eyeGeometry eyesWide) = Num 200 \<and>
   angle (eyeGeometry eyesNarrow) = angle (eyeGeometry eyesWide) \<and>
   eyesCenter (eyeGeometry eyesNarrow) = eyesCenter (eyeGeometry eyesWide) \<and>
   jle (safeZoom 1000 1000 imageSquare eyesNarrow) (safeZoom 1000 1000 imageSquare eyesWide)"
  using safeZoom_mono_eyeDistance [of eyesNarrow 100 eyesWide 200 1000 1000 imageSquare]
  by (simp add: eyeGeometry_eyesNarrow eyeGeometry_eyesWide)

text \<open>
  Halving the eye distance from 200 to 100 with everything else fixed halves the
  safe zoom from 0.16 to 0.08: it decreases.
\<close>

theorem safeZoom_eyeDistance_counterexample:
  "currentEyesDist (eyeGeometry eyesNarrow) = Num 100 \<and>
   currentEyesDist (eyeGeometry eyesWide) = Num 200 \<and>
   angle (eyeGeometry eyesNarrow) = angle (eyeGeometry eyesWide) \<and>
   eyesCenter (eyeGeometry eyesNarrow) = eyesCenter (eyeGeometry eyesWide) \<and>
   safeZoom 1000 1000 imageSquare eyesNarrow = Num 0.08 \<and>
   safeZoom 1000 1000 imageSquare eyesWide = Num 0.16 \<and>
   jlt (safeZoom 1000 1000 imageSquare eyesNarrow) (safeZoom 1000 1000 imageSquare eyesWide) \<and>
   \<not> jle (safeZoom 1000 1000 imageSquare eyesWide) (safeZoom 1000 1000 imageSquare eyesNarrow)"
  by (simp add: eyeGeometry_eyesNarrow eyeGeometry_eyesWide safeZoom_eyesNarrow
      safeZoom_eyesWide jle_def)

section \<open>Centroids and empty point clusters\<close>

text \<open>
  C9, as the code has it. On a non-empty cluster of finite points \<^verbatim>\<open>getCentroid\<close> is
  the arithmetic centroid. On an empty cluster it fails with nothing: it returns
  \<open>(NaN, NaN)\<close>, and a frame with detections one of whose clusters is empty is still
  drawn by the aligned branch, not letterboxed, under the matrix that only moves
  the origin to the target (the canvas ignores the NaN scale, rotation and
  translation).
\<close>

theorem centroid_and_empty_cluster:
  "(ps \<noteq> [] \<longrightarrow> getCentroid (map mkPoint ps) = mkPoint (spec_centroid ps)) \<and>
   getCentroid [] = \<lparr>px = NaN, py = NaN\<rparr> \<and>
   (i < length (images s) \<and> detections (images s ! i) = Some d \<and> alignEyes s \<and>
    (leftEye d = [] \<or> rightEye d = []) \<longrightarrow>
      canvasContent (renderFrame i s) =
        Some (Aligned (original (images s ! i))
          \<lparr>ma = Num 1, mb = Num 0, mc = Num 0, md = Num 1,
           me = Num (real (canvasWidth s) * 0.5), mf = Num (real (canvasHeight s) * 0.4)\<rparr>))"
  using getCentroid_finite [of ps] getCentroid_Nil renderFrame_aligned [of i s d]
    alignTransform_missing [of d "canvasWidth s" "canvasHeight s" "zoom s"]
  by auto

theorem centroid_and_empty_cluster_witness:
  "getCentroid (map mkPoint [(1, 2), (3, 6)]) = \<lparr>px = Num 2, py = Num 4\<rparr> \<and>
   getCentroid [] = \<lparr>px = NaN, py = NaN\<rparr> \<and>
   0 < length (images sessionMissing) \<and>
   detections (images sessionMissing ! 0) = Some eyesMissing \<and>
   alignEyes sessionMissing \<and> leftEye eyesMissing = [] \<and>
   canvasContent (renderFrame 0 sessionMissing) =
     Some (Aligned imageSquare
       \<lparr>ma = Num 1, mb = Num 0, mc = Num 0, md = Num 1, me = Num 500, mf = Num 400\<rparr>)"
  using centroid_and_empty_cluster [of "[(1, 2), (3, 6)]" 0 sessionMissing eyesMissing]
  by (simp add: spec_centroid_def mkPoint_def)
     (simp add: sessionMissing_def eval_session eyesMissing_def)

text \<open>
  A detection whose left-eye cluster is empty: the geometry is NaN throughout and
  the frame is drawn aligned, not letterboxed.
\<close>

theorem empty_cluster_counterexample:
  "detections (images sessionMissing ! 0) = Some eyesMissing \<and>
   leftEye eyesMissing = [] \<and>
   eyeGeometry eyesMissing = \<lparr>eyeDx = NaN, eyeDy = NaN, currentEyesDist = NaN,
     angle = NaN, eyesCenter = \<lparr>px = NaN, py = NaN\<rparr>\<rparr> \<and>
   canvasContent (renderFrame 0 sessionMissing) =
     Some (Aligned imageSquare
       \<lparr>ma = Num 1, mb = Num 0, mc = Num 0, md = Num 1, me = Num 500, mf = Num 400\<rparr>) \<and>
   canvasContent (renderFrame 0 sessionMissing) \<noteq> Some (letterbox 1000 1000 imageSquare)"
  by (simp add: eyeGeometry_eyesMissing renderFrame_def alignTransform_def alignScale_def
      Let_def ofDim_def identityMatrix_def ctxTranslate_def ctxScale_def ctxRotate_def
      letterbox_def sessionMissing_def eval_session)
     (simp add: eyesMissing_def)

section \<open>The empty session\<close>

text \<open>
  C10. When \<^verbatim>\<open>state.images\<close> is empty, \<^verbatim>\<open>autoFitZoom\<close> returns at once: the zoom, the
  slider, the loading overlay, the canvas and every other field of the session
  are as before.
\<close>

theorem autoFitZoom_empty_noop: "images s = [] \<Longrightarrow> autoFitZoom s = s"
  by (simp add: autoFitZoom_def)

theorem autoFitZoom_empty_noop_witness:
  "images (session [] 300 150) = [] \<and> autoFitZoom (session [] 300 150) = session [] 300 150"
  using autoFitZoom_empty_noop [of "session [] 300 150"] by (simp add: session_def)

end
